theory Spec2Isabelle
  imports Complex_Main "HOL-Library.Word" "HOL-Library.Multiset"
begin

section \<open>Perceptual colour engine: data model\<close>

text \<open>
  The Python sources are \<^verbatim>\<open>core/color_ops.py\<close> and \<^verbatim>\<open>core/extractor.py\<close>.
  Python integers are modelled as \<^typ>\<open>int\<close>, \<^verbatim>\<open>uint8\<close> array elements as
  \<^typ>\<open>8 word\<close>, and Python/NumPy floating-point numbers as \<^typ>\<open>real\<close>: every
  floating-point operation is read as the exact real operation it approximates.
\<close>

type_synonym rgb = "int \<times> int \<times> int"

type_synonym lab = "real \<times> real \<times> real"

definition valid_channel :: "int \<Rightarrow> bool" where
  "valid_channel c = (0 \<le> c \<and> c \<le> 255)"

fun valid_rgb :: "rgb \<Rightarrow> bool" where
  "valid_rgb (r, g, b) = (valid_channel r \<and> valid_channel g \<and> valid_channel b)"

section \<open>Accessibility helpers\<close>

text \<open>
  \<^verbatim>\<open>
  def _srgb_to_lin(c: float) -> float:
      c = c / 255.0
      return c / 12.92 if c <= 0.04045 * 255 else ((c + 0.055 * 255) / (1.055 * 255)) ** 2.4
  \<close>
  The channel is divided by 255 first; the threshold and the offsets are then
  written with a further factor 255, as the source has them.
\<close>

definition srgb_to_lin :: "real \<Rightarrow> real" where
  "srgb_to_lin c0 =
     (let c = c0 / 255
      in if c \<le> 0.04045 * 255 then c / 12.92
         else ((c + 0.055 * 255) / (1.055 * 255)) powr 2.4)"

fun relative_luminance :: "rgb \<Rightarrow> real" where
  "relative_luminance (r, g, b) =
     (let R = srgb_to_lin (of_int r);
          G = srgb_to_lin (of_int g);
          B = srgb_to_lin (of_int b)
      in 0.2126 * R + 0.7152 * G + 0.0722 * B)"

definition contrast_ratio :: "rgb \<Rightarrow> rgb \<Rightarrow> real" where
  "contrast_ratio rgb1 rgb2 =
     (let L1 = relative_luminance rgb1;
          L2 = relative_luminance rgb2;
          (L1', L2') = (if L1 \<ge> L2 then (L1, L2) else (L2, L1))
      in (L1' + 0.05) / (L2' + 0.05))"

definition ideal_text_color :: "rgb \<Rightarrow> rgb" where
  "ideal_text_color bg =
     (let black = (0, 0, 0); white = (255, 255, 255)
      in if contrast_ratio bg white \<ge> contrast_ratio bg black then white else black)"

section \<open>Errors\<close>

text \<open>
  The exceptions that the modelled code can raise: Python's \<^verbatim>\<open>ValueError\<close>,
  \<^verbatim>\<open>IndexError\<close> and \<^verbatim>\<open>OverflowError\<close>, and OpenCV's \<^verbatim>\<open>cv2.error\<close>.
  \<open>NanWeights\<close> stands for the one outcome that is not an exception: NumPy divides
  0 by 0 into NaN with a warning, where division in HOL would give 0.
\<close>

datatype error = ValueError | IndexError | OverflowError | CvError | NanWeights

section \<open>Hexadecimal colour strings\<close>

text \<open>
  Strings are lists of 8-bit characters, read as the code points 0 to 255.
  \<open>is_space\<close> is the whitespace that \<^verbatim>\<open>int\<close> skips on these code points: the
  ASCII whitespace, and the two further space characters below 256 (0x85 and 0xA0).
\<close>

definition is_space :: "char \<Rightarrow> bool" where
  "is_space c = ((of_char c :: nat) \<in> {9, 10, 11, 12, 13, 32, 133, 160})"

definition digit_value :: "char \<Rightarrow> int option" where
  "digit_value c =
     (let n = (of_char c :: nat)
      in if 48 \<le> n \<and> n \<le> 57 then Some (int n - 48)
         else if 97 \<le> n \<and> n \<le> 102 then Some (int n - 87)
         else if 65 \<le> n \<and> n \<le> 70 then Some (int n - 55)
         else None)"

text \<open>
  \<open>scan_digits acc s\<close> reads the rest of a hexadecimal literal after a digit:
  further digits, each optionally preceded by one underscore.
\<close>

fun scan_digits :: "int \<Rightarrow> string \<Rightarrow> int option" where
  "scan_digits acc [] = Some acc"
| "scan_digits acc [c] =
     (case digit_value c of None \<Rightarrow> None | Some v \<Rightarrow> Some (16 * acc + v))"
| "scan_digits acc (c # d # ds) =
     (if c = CHR ''_''
      then (case digit_value d of None \<Rightarrow> None | Some v \<Rightarrow> scan_digits (16 * acc + v) ds)
      else (case digit_value c of None \<Rightarrow> None | Some v \<Rightarrow> scan_digits (16 * acc + v) (d # ds)))"

definition parse_digits :: "string \<Rightarrow> int option" where
  "parse_digits s =
     (case s of [] \<Rightarrow> None
      | c # cs \<Rightarrow> (case digit_value c of None \<Rightarrow> None | Some v \<Rightarrow> scan_digits v cs))"

definition strip :: "string \<Rightarrow> string" where
  "strip s = rev (dropWhile is_space (rev (dropWhile is_space s)))"

text \<open>
  Python's \<^verbatim>\<open>int(s, 16)\<close>: surrounding whitespace, an optional sign, an optional
  prefix \<^verbatim>\<open>0x\<close> or \<^verbatim>\<open>0X\<close> (after which one underscore may stand), then the digits.
  Anything else raises \<^verbatim>\<open>ValueError\<close>.
\<close>

definition int16 :: "string \<Rightarrow> error + int" where
  "int16 s =
     (let t = strip s;
          (sign, u) = (case t of [] \<Rightarrow> (1, [])
                       | c # cs \<Rightarrow> if c = CHR ''+'' then (1, cs)
                                   else if c = CHR ''-'' then (- 1, cs)
                                   else (1, t));
          w = (case u of
                 c # x # r \<Rightarrow>
                   if c = CHR ''0'' \<and> (x = CHR ''x'' \<or> x = CHR ''X'')
                   then (case r of [] \<Rightarrow> r | y # r' \<Rightarrow> if y = CHR ''_'' then r' else r)
                   else u
               | _ \<Rightarrow> u)
      in case parse_digits w of None \<Rightarrow> Inl ValueError | Some n \<Rightarrow> Inr (sign * n))"

text \<open>
  \<^verbatim>\<open>
  def hex_to_rgb(hex_str: str) -> Tuple[int, int, int]:
      h = hex_str.lstrip("#")
      return tuple(int(h[i:i+2], 16) for i in (0, 2, 4))
  \<close>
\<close>

definition hex_to_rgb :: "string \<Rightarrow> error + rgb" where
  "hex_to_rgb hex_str =
     (let h = dropWhile (\<lambda>c. c = CHR ''#'') hex_str
      in case int16 (take 2 (drop 0 h)) of Inl e \<Rightarrow> Inl e
         | Inr r \<Rightarrow>
       (case int16 (take 2 (drop 2 h)) of Inl e \<Rightarrow> Inl e
         | Inr g \<Rightarrow>
       (case int16 (take 2 (drop 4 h)) of Inl e \<Rightarrow> Inl e
         | Inr b \<Rightarrow> Inr (r, g, b))))"

text \<open>
  The format specification \<^verbatim>\<open>{:02x}\<close>: lower-case hexadecimal digits, a minus
  sign for a negative number, zero-padded to a width of at least two characters
  (the sign counts for the width).
\<close>

definition hex_digit :: "nat \<Rightarrow> char" where
  "hex_digit n = ''0123456789abcdef'' ! n"

fun hex_digits :: "nat \<Rightarrow> string" where
  "hex_digits n = (if n < 16 then [hex_digit n] else hex_digits (n div 16) @ [hex_digit (n mod 16)])"

declare hex_digits.simps [simp del]

definition format_02x :: "int \<Rightarrow> string" where
  "format_02x v =
     (if v < 0 then CHR ''-'' # hex_digits (nat (- v))
      else let ds = hex_digits (nat v) in if length ds < 2 then CHR ''0'' # ds else ds)"

text \<open>
  \<^verbatim>\<open>
  def rgb_to_hex(rgb: Tuple[int, int, int]) -> str:
      return "#{:02x}{:02x}{:02x}".format(*rgb)
  \<close>
\<close>

fun rgb_to_hex :: "rgb \<Rightarrow> string" where
  "rgb_to_hex (r, g, b) = CHR ''#'' # format_02x r @ format_02x g @ format_02x b"

text \<open>Python's \<^verbatim>\<open>str.lower\<close> and \<^verbatim>\<open>str.upper\<close> on the ASCII letters.\<close>

definition lower_char :: "char \<Rightarrow> char" where
  "lower_char c = (let n = (of_char c :: nat) in if 65 \<le> n \<and> n \<le> 90 then char_of (n + 32) else c)"

definition upper_char :: "char \<Rightarrow> char" where
  "upper_char c = (let n = (of_char c :: nat) in if 97 \<le> n \<and> n \<le> 122 then char_of (n - 32) else c)"

definition is_hex_char :: "char \<Rightarrow> bool" where
  "is_hex_char c = (digit_value c \<noteq> None)"

text \<open>A well-formed colour string: \<^verbatim>\<open>#\<close> and exactly six hexadecimal digits.\<close>

definition well_formed_hex :: "string \<Rightarrow> bool" where
  "well_formed_hex s =
     (case s of [] \<Rightarrow> False
      | c # ds \<Rightarrow> c = CHR ''#'' \<and> length ds = 6 \<and> list_all is_hex_char ds)"

section \<open>Colour space conversion\<close>

type_synonym u8 = "8 word"
type_synonym u8x3 = "u8 \<times> u8 \<times> u8"

text \<open>
  \<^verbatim>\<open>
  def rgb_to_lab(rgb: np.ndarray) -> np.ndarray:
      bgr = rgb[:, ::-1].astype(np.uint8)           # OpenCV expects BGR
      bgr = bgr[np.newaxis, :, :]                   # (1,N,3)
      lab = cv2.cvtColor(bgr, cv2.COLOR_BGR2LAB)[0] # (N,3)
      return lab.astype(np.float32)
  \<close>
  \<^verbatim>\<open>astype(np.uint8)\<close> on integers keeps the low eight bits. OpenCV's conversion is
  not part of the repository: it converts each pixel on its own, from three
  \<^verbatim>\<open>uint8\<close> channels to three \<^verbatim>\<open>uint8\<close> channels, and is the parameter \<open>cvt\<close>;
  it rejects an image without pixels.
\<close>

definition astype_uint8 :: "int \<Rightarrow> u8" where
  "astype_uint8 c = word_of_int c"

fun rgb_to_bgr_uint8 :: "rgb \<Rightarrow> u8x3" where
  "rgb_to_bgr_uint8 (r, g, b) = (astype_uint8 b, astype_uint8 g, astype_uint8 r)"

fun astype_float32 :: "u8x3 \<Rightarrow> lab" where
  "astype_float32 (x, y, z) = (real (unat x), real (unat y), real (unat z))"

definition rgb_to_lab :: "(u8x3 \<Rightarrow> u8x3) \<Rightarrow> rgb list \<Rightarrow> error + lab list" where
  "rgb_to_lab cvt rgb =
     (let bgr = map rgb_to_bgr_uint8 rgb
      in if bgr = [] then Inl CvError
         else Inr (map (\<lambda>p. astype_float32 (cvt p)) bgr))"

text \<open>
  OpenCV documents \<^verbatim>\<open>COLOR_BGR2LAB\<close> on 8-bit images as follows. The channels are
  scaled to [0,1] and gamma-expanded by the sRGB transfer function; X, Y and Z come from
  the matrix for the D65 white point, X and Z divided by Xn = 0.950456 and
  Zn = 1.088754; L, a and b are the CIE formulas; and the result is stored in eight
  bits as L * 255 / 100, a + 128 and b + 128, rounded to the nearest integer and
  saturated. \<open>cv2_bgr2lab\<close> is that conversion, with reals for floats.
\<close>

definition srgb_gamma :: "real \<Rightarrow> real" where
  "srgb_gamma x = (if x \<le> 0.04045 then x / 12.92 else ((x + 0.055) / 1.055) powr 2.4)"

definition lab_f :: "real \<Rightarrow> real" where
  "lab_f t = (if t > 0.008856 then root 3 t else 7.787 * t + 16 / 116)"

definition saturate_uint8 :: "real \<Rightarrow> u8" where
  "saturate_uint8 x = word_of_int (max 0 (min 255 (round x)))"

definition cv2_bgr2lab :: "u8x3 \<Rightarrow> u8x3" where
  "cv2_bgr2lab bgr =
     (case bgr of (b8, g8, r8) \<Rightarrow>
      let R = srgb_gamma (real (unat r8) / 255);
          G = srgb_gamma (real (unat g8) / 255);
          B = srgb_gamma (real (unat b8) / 255);
          X = (0.412453 * R + 0.357580 * G + 0.180423 * B) / 0.950456;
          Y = 0.212671 * R + 0.715160 * G + 0.072169 * B;
          Z = (0.019334 * R + 0.119193 * G + 0.950227 * B) / 1.088754;
          L = (if Y > 0.008856 then 116 * root 3 Y - 16 else 903.3 * Y);
          a = 500 * (lab_f X - lab_f Y);
          b = 200 * (lab_f Y - lab_f Z)
      in (saturate_uint8 (L * 255 / 100), saturate_uint8 (a + 128), saturate_uint8 (b + 128)))"

fun mod_256 :: "rgb \<Rightarrow> rgb" where
  "mod_256 (r, g, b) = (r mod 256, g mod 256, b mod 256)"

section \<open>Distance metrics\<close>

text \<open>
  Both metrics take two batches, of sizes N and M, and return the N-by-M matrix of
  distances (a list of rows). NumPy computes every entry by broadcasting; the entry
  for one pair of colours is written here as a function of its own
  (\<open>deltaE76_at\<close>, \<open>deltaE2000_at\<close>) and the matrix maps it over both batches.
  \<^verbatim>\<open>
  d = np.sqrt(np.sum((a - b) ** 2, axis=2))
  \<close>
\<close>

fun deltaE76_at :: "lab \<Rightarrow> lab \<Rightarrow> real" where
  "deltaE76_at (L1, a1, b1) (L2, a2, b2) =
     sqrt ((L1 - L2)\<^sup>2 + (a1 - a2)\<^sup>2 + (b1 - b2)\<^sup>2)"

definition deltaE76 :: "lab list \<Rightarrow> lab list \<Rightarrow> real list list" where
  "deltaE76 lab1 lab2 = map (\<lambda>p. map (\<lambda>q. deltaE76_at p q) lab2) lab1"

text \<open>
  \<^verbatim>\<open>np.arctan2(y, x)\<close>: the angle of the point (x, y), between \<open>- pi\<close> (excluded) and
  \<open>pi\<close>, and 0 at the origin.
\<close>

definition arctan2 :: "real \<Rightarrow> real \<Rightarrow> real" where
  "arctan2 y x =
     (if 0 < x then arctan (y / x)
      else if x < 0 then (if 0 \<le> y then arctan (y / x) + pi else arctan (y / x) - pi)
      else if 0 < y then pi / 2
      else if y < 0 then - (pi / 2)
      else 0)"

text \<open>
  The local function \<^verbatim>\<open>_atan2\<close> of \<^verbatim>\<open>deltaE2000\<close>:
  \<^verbatim>\<open>
  ang = np.arctan2(y, x)
  ang = np.where(ang < 0, ang + 2*np.pi, ang)
  \<close>
\<close>

definition atan2_wrapped :: "real \<Rightarrow> real \<Rightarrow> real" where
  "atan2_wrapped y x = (let ang = arctan2 y x in if ang < 0 then ang + 2 * pi else ang)"

definition deg2rad :: "real \<Rightarrow> real" where
  "deg2rad d = d * (pi / 180)"

definition rad2deg :: "real \<Rightarrow> real" where
  "rad2deg r = r * (180 / pi)"

text \<open>
  \<^verbatim>\<open>
  C_bar7 = C_bar**7
  G = 0.5 * (1 - np.sqrt(C_bar7 / (C_bar7 + (25.0**7))))
  \<close>
\<close>

definition G_factor :: "real \<Rightarrow> real" where
  "G_factor C_bar = (let C_bar7 = C_bar ^ 7 in 0.5 * (1 - sqrt (C_bar7 / (C_bar7 + 25 ^ 7))))"

text \<open>
  \<^verbatim>\<open>
  dhp = h2p - h1p
  dhp = np.where(dhp >  np.pi, dhp - 2*np.pi, dhp)
  dhp = np.where(dhp < -np.pi, dhp + 2*np.pi, dhp)
  \<close>
\<close>

definition delta_hp :: "real \<Rightarrow> real \<Rightarrow> real" where
  "delta_hp h1p h2p =
     (let dhp = h2p - h1p;
          dhp = (if dhp > pi then dhp - 2 * pi else dhp);
          dhp = (if dhp < - pi then dhp + 2 * pi else dhp)
      in dhp)"

text \<open>
  \<^verbatim>\<open>
  hp_bar = (h1p + h2p) / 2.0
  hp_bar = np.where(np.abs(h1p - h2p) > np.pi, hp_bar + np.pi, hp_bar)
  hp_bar = np.where(hp_bar >= 2*np.pi, hp_bar - 2*np.pi, hp_bar)
  \<close>
\<close>

definition mean_hp :: "real \<Rightarrow> real \<Rightarrow> real" where
  "mean_hp h1p h2p =
     (let hp_bar = (h1p + h2p) / 2;
          hp_bar = (if \<bar>h1p - h2p\<bar> > pi then hp_bar + pi else hp_bar);
          hp_bar = (if hp_bar \<ge> 2 * pi then hp_bar - 2 * pi else hp_bar)
      in hp_bar)"

text \<open>The terms T, SL, SC, SH and RT, each as the source computes it.\<close>

definition T_term :: "real \<Rightarrow> real" where
  "T_term hp_bar =
     1 - 0.17 * cos (hp_bar - deg2rad 30)
       + 0.24 * cos (2 * hp_bar)
       + 0.32 * cos (3 * hp_bar + deg2rad 6)
       - 0.20 * cos (4 * hp_bar - deg2rad 63)"

definition SL_term :: "real \<Rightarrow> real" where
  "SL_term Lp_bar = 1 + (0.015 * (Lp_bar - 50)\<^sup>2) / sqrt (20 + (Lp_bar - 50)\<^sup>2)"

definition SC_term :: "real \<Rightarrow> real" where
  "SC_term Cp_bar = 1 + 0.045 * Cp_bar"

definition SH_term :: "real \<Rightarrow> real \<Rightarrow> real" where
  "SH_term Cp_bar T = 1 + 0.015 * Cp_bar * T"

definition RT_term :: "real \<Rightarrow> real \<Rightarrow> real" where
  "RT_term Cp_bar hp_bar =
     (let delta_theta = deg2rad 30 * exp (- (((rad2deg hp_bar - 275) / 25)\<^sup>2));
          RC = 2 * sqrt (Cp_bar ^ 7 / (Cp_bar ^ 7 + 25 ^ 7))
      in - sin (2 * delta_theta) * RC)"

text \<open>
  The body of \<^verbatim>\<open>deltaE2000\<close> for one pair of colours, line by line, up to the
  argument of the final \<^verbatim>\<open>np.sqrt\<close>; \<open>deltaE2000_at\<close> is its square root.
\<close>

definition deltaE2000_radicand :: "lab \<Rightarrow> lab \<Rightarrow> real" where
  "deltaE2000_radicand lab1 lab2 =
     (case (lab1, lab2) of ((L1, a1, b1), (L2, a2, b2)) \<Rightarrow>
      let C1 = sqrt (a1\<^sup>2 + b1\<^sup>2);
          C2 = sqrt (a2\<^sup>2 + b2\<^sup>2);
          C_bar = (C1 + C2) / 2;
          G = G_factor C_bar;
          a1p = (1 + G) * a1;
          a2p = (1 + G) * a2;
          C1p = sqrt (a1p\<^sup>2 + b1\<^sup>2);
          C2p = sqrt (a2p\<^sup>2 + b2\<^sup>2);
          h1p = atan2_wrapped b1 a1p;
          h2p = atan2_wrapped b2 a2p;
          dLp = L1 - L2;
          dCp = C1p - C2p;
          dhp = delta_hp h1p h2p;
          dHp = 2 * sqrt (C1p * C2p) * sin (dhp / 2);
          Lp_bar = (L1 + L2) / 2;
          Cp_bar = (C1p + C2p) / 2;
          hp_bar = mean_hp h1p h2p;
          T = T_term hp_bar;
          SL = SL_term Lp_bar;
          SC = SC_term Cp_bar;
          SH = SH_term Cp_bar T;
          RT = RT_term Cp_bar hp_bar;
          kL = 1; kC = 1; kH = 1
      in (dLp / (kL * SL))\<^sup>2 + (dCp / (kC * SC))\<^sup>2 + (dHp / (kH * SH))\<^sup>2
         + RT * (dCp / (kC * SC)) * (dHp / (kH * SH)))"

definition deltaE2000_at :: "lab \<Rightarrow> lab \<Rightarrow> real" where
  "deltaE2000_at p q = sqrt (deltaE2000_radicand p q)"

definition deltaE2000 :: "lab list \<Rightarrow> lab list \<Rightarrow> real list list" where
  "deltaE2000 lab1 lab2 = map (\<lambda>p. map (\<lambda>q. deltaE2000_at p q) lab2) lab1"

section \<open>Matching to the reference palette\<close>

text \<open>
  \<^verbatim>\<open>TWEntry\<close> (in \<^verbatim>\<open>core/tailwind.py\<close>) has the fields name, shade and hex;
  \<^verbatim>\<open>TWMatch\<close> has the same three fields and the distance.
\<close>

record TWEntry =
  name :: string
  shade :: int
  hex :: string

record TWMatch = TWEntry +
  deltaE :: real

text \<open>
  \<^verbatim>\<open>np.argmin\<close>: the index of the first occurrence of the least element; it raises
  \<^verbatim>\<open>ValueError\<close> on an empty array, which is \<open>None\<close> here.
\<close>

fun argmin :: "'a::linorder list \<Rightarrow> nat option" where
  "argmin [] = None"
| "argmin (x # xs) =
     (case argmin xs of
        None \<Rightarrow> Some 0
      | Some k \<Rightarrow> if x \<le> xs ! k then Some 0 else Some (Suc k))"

text \<open>
  \<^verbatim>\<open>method.upper() in ("DE2000", "CIEDE2000", "DE00")\<close>. Only ASCII letters are
  mapped: no other 8-bit character has an upper case that occurs in these three names.
\<close>

definition use_de2000 :: "string \<Rightarrow> bool" where
  "use_de2000 method = (map upper_char method \<in> {''DE2000'', ''CIEDE2000'', ''DE00''})"

text \<open>
  \<^verbatim>\<open>
  rgb_lab = rgb_to_lab(np.array([rgb], dtype=np.uint8))  # (1,3)
  if method.upper() in ("DE2000", "CIEDE2000", "DE00"):
      dists = deltaE2000(rgb_lab, tw_lab)[0]
  else:
      dists = deltaE76(rgb_lab, tw_lab)[0]
  \<close>
  NumPy 2 refuses to build a \<^verbatim>\<open>uint8\<close> array from a Python integer outside [0,255]
  (\<^verbatim>\<open>OverflowError\<close>), which is the behaviour modelled; NumPy 1 wraps such an integer
  around with a deprecation warning. The callers pass channels of \<^verbatim>\<open>uint8\<close> centers.
\<close>

definition tailwind_dists :: "(u8x3 \<Rightarrow> u8x3) \<Rightarrow> rgb \<Rightarrow> lab list \<Rightarrow> string \<Rightarrow> error + real list" where
  "tailwind_dists cvt rgb tw_lab method =
     (if \<not> valid_rgb rgb then Inl OverflowError
      else case rgb_to_lab cvt [rgb] of Inl e \<Rightarrow> Inl e
           | Inr rgb_lab \<Rightarrow>
               (case (if use_de2000 method then deltaE2000 rgb_lab tw_lab
                      else deltaE76 rgb_lab tw_lab) of
                  [] \<Rightarrow> Inl IndexError
                | dists # _ \<Rightarrow> Inr dists))"

text \<open>
  \<^verbatim>\<open>
  k = int(np.argmin(dists))
  entry = tw_entries[k]
  return TWMatch(name=entry.name, shade=entry.shade, hex=entry.hex, deltaE=float(dists[k]))
  \<close>
\<close>

definition nearest_tailwind ::
  "(u8x3 \<Rightarrow> u8x3) \<Rightarrow> rgb \<Rightarrow> TWEntry list \<Rightarrow> lab list \<Rightarrow> string \<Rightarrow> error + TWMatch" where
  "nearest_tailwind cvt rgb tw_entries tw_lab method =
     (case tailwind_dists cvt rgb tw_lab method of Inl e \<Rightarrow> Inl e
      | Inr dists \<Rightarrow>
          (case argmin dists of None \<Rightarrow> Inl ValueError
           | Some k \<Rightarrow>
               if k < length tw_entries
               then let entry = tw_entries ! k
                    in Inr \<lparr>name = name entry, shade = shade entry, hex = hex entry,
                            deltaE = dists ! k\<rparr>
               else Inl IndexError))"

text \<open>The Lab triple that \<open>tailwind_dists\<close> measures from.\<close>

definition lab_of_rgb :: "(u8x3 \<Rightarrow> u8x3) \<Rightarrow> rgb \<Rightarrow> lab" where
  "lab_of_rgb cvt rgb = astype_float32 (cvt (rgb_to_bgr_uint8 rgb))"

definition metric_at :: "string \<Rightarrow> lab \<Rightarrow> lab \<Rightarrow> real" where
  "metric_at method p q = (if use_de2000 method then deltaE2000_at p q else deltaE76_at p q)"

section \<open>Dominant colour extraction\<close>

text \<open>
  The decoded image is an array of shape (h, w, 3) of \<^verbatim>\<open>uint8\<close>: its two
  dimensions and its pixels in row-major order, which is what \<^verbatim>\<open>reshape(-1, 3)\<close>
  returns. A two-dimensional array of floats is a list of rows.
\<close>

record frame =
  height :: nat
  width :: nat
  pixels :: "u8x3 list"

type_synonym row = "real list"

text \<open>
  \<^verbatim>\<open>
  if max(h, w) > max_side:
      scale = max_side / max(h, w)
      arr = cv2.resize(arr, (int(w * scale), int(h * scale)), interpolation=cv2.INTER_AREA)
  \<close>
  \<^verbatim>\<open>int\<close> truncates, and the products are not negative: the target sizes are
  floors. OpenCV rejects an empty source and a target size with a side that is not
  positive (\<^verbatim>\<open>cv2.error\<close>); the pixels that its area-averaging filter then computes
  for the target size are the parameter \<open>resize\<close>.
\<close>

definition cv2_resize ::
  "(frame \<Rightarrow> nat \<Rightarrow> nat \<Rightarrow> u8x3 list) \<Rightarrow> frame \<Rightarrow> nat \<Rightarrow> nat \<Rightarrow> error + frame" where
  "cv2_resize resize arr new_w new_h =
     (if height arr = 0 \<or> width arr = 0 \<or> new_w = 0 \<or> new_h = 0 then Inl CvError
      else Inr \<lparr>height = new_h, width = new_w, pixels = resize arr new_w new_h\<rparr>)"

definition downscaled ::
  "(frame \<Rightarrow> nat \<Rightarrow> nat \<Rightarrow> u8x3 list) \<Rightarrow> frame \<Rightarrow> nat \<Rightarrow> error + frame" where
  "downscaled resize arr max_side =
     (let h = height arr; w = width arr
      in if max h w > max_side
         then let scale = real max_side / real (max h w)
              in cv2_resize resize arr (nat \<lfloor>real w * scale\<rfloor>) (nat \<lfloor>real h * scale\<rfloor>)
         else Inr arr)"

text \<open>\<^verbatim>\<open>pixels = arr.reshape(-1, 3).astype(np.float32)\<close>: one row of three floats per pixel.\<close>

fun as_row :: "u8x3 \<Rightarrow> row" where
  "as_row (r, g, b) = [real (unat r), real (unat g), real (unat b)]"

text \<open>
  \<^verbatim>\<open>
  if pixels.shape[0] > sample:
      rng = np.random.default_rng(seed)
      idx = rng.choice(pixels.shape[0], size=sample, replace=False)
      data = pixels[idx]
  else:
      data = pixels
  \<close>
  \<open>choice seed n size\<close> is NumPy's seeded draw of \<open>size\<close> indices below \<open>n\<close>.
\<close>

definition sample_data :: "(nat \<Rightarrow> nat \<Rightarrow> nat \<Rightarrow> nat list) \<Rightarrow> row list \<Rightarrow> nat \<Rightarrow> nat \<Rightarrow> row list" where
  "sample_data choice pxs sample seed =
     (if length pxs > sample
      then let idx = choice seed (length pxs) sample in map (\<lambda>i. pxs ! i) idx
      else pxs)"

text \<open>
  \<^verbatim>\<open>cv2.kmeans(data, k, None, criteria, 3, cv2.KMEANS_PP_CENTERS)\<close>. OpenCV reads a
  matrix with a single row as a row of one-dimensional samples, and any other matrix as
  one sample per row (\<open>kmeans_samples\<close>). It requires a positive number of clusters and at
  least as many samples as clusters, and raises \<^verbatim>\<open>cv2.error\<close> otherwise. The K centers
  that its randomised clustering then returns, one row per center with the dimension of
  the samples, are the parameter \<open>cluster\<close>.
\<close>

definition kmeans_samples :: "row list \<Rightarrow> row list" where
  "kmeans_samples data = (case data of [s] \<Rightarrow> map (\<lambda>x. [x]) s | _ \<Rightarrow> data)"

definition cv2_kmeans :: "(row list \<Rightarrow> nat \<Rightarrow> row list) \<Rightarrow> row list \<Rightarrow> nat \<Rightarrow> error + row list" where
  "cv2_kmeans cluster data k =
     (let samples = kmeans_samples data
      in if k = 0 \<or> length samples < k then Inl CvError else Inr (cluster samples k))"

text \<open>\<^verbatim>\<open>centers.clip(0, 255).astype(np.uint8)\<close>: clip, then truncate.\<close>

definition clip_uint8 :: "real \<Rightarrow> u8" where
  "clip_uint8 x = word_of_int \<lfloor>min (max x 0) 255\<rfloor>"

text \<open>
  \<^verbatim>\<open>
  diffs = arr.reshape(-1, 1, 3).astype(np.float32) - centers_f[None, :, :]
  d2 = (diffs ** 2).sum(axis=2)  # (N,K)
  labels = d2.argmin(axis=1)     # (N,)
  counts = np.bincount(labels, minlength=k)
  \<close>
  The subtraction broadcasts the three channels of a pixel against a center: the
  centers must have three columns, or one column that is then repeated, and any other
  shape raises \<^verbatim>\<open>ValueError\<close>. The squared distances are sums of three squares of
  integers below 256: \<^verbatim>\<open>float32\<close> represents every one of them exactly, so they are
  integers here. \<^verbatim>\<open>argmin\<close> along an axis of length 0 raises \<^verbatim>\<open>ValueError\<close> too.
\<close>

fun broadcast3 :: "'a list \<Rightarrow> 'a list" where
  "broadcast3 [x] = [x, x, x]"
| "broadcast3 c = c"

definition broadcastable :: "u8 list list \<Rightarrow> bool" where
  "broadcastable centers =
     (list_all (\<lambda>c. length c = 3) centers \<or> list_all (\<lambda>c. length c = 1) centers)"

fun d2 :: "u8x3 \<Rightarrow> u8 list \<Rightarrow> int" where
  "d2 (r, g, b) c = sum_list (map2 (\<lambda>x y. (uint x - uint y)\<^sup>2) [r, g, b] (broadcast3 c))"

text \<open>The label of one pixel; the centers are not empty where it is used.\<close>

definition label :: "u8 list list \<Rightarrow> u8x3 \<Rightarrow> nat" where
  "label centers p = (case argmin (map (d2 p) centers) of None \<Rightarrow> 0 | Some k \<Rightarrow> k)"

definition bincount :: "nat list \<Rightarrow> nat \<Rightarrow> nat list" where
  "bincount labels minlength =
     map (\<lambda>i. count_list labels i) [0..<max minlength (foldr max (map Suc labels) 0)]"

definition cluster_counts :: "u8 list list \<Rightarrow> u8x3 list \<Rightarrow> nat \<Rightarrow> error + nat list" where
  "cluster_counts centers pxs k =
     (if \<not> broadcastable centers \<or> centers = [] then Inl ValueError
      else Inr (bincount (map (label centers) pxs) k))"

text \<open>
  \<^verbatim>\<open>argsort\<close>: the indices in ascending order of their values. NumPy's default
  sort leaves the order of the indices of equal values open; here the earlier index
  comes first. The values in the sorted order are the same either way.
\<close>

definition argsort :: "real list \<Rightarrow> nat list" where
  "argsort xs = sort_key (\<lambda>i. xs ! i) [0..<length xs]"

text \<open>
  \<^verbatim>\<open>
  weights = counts / counts.sum()
  order = (-weights).argsort()
  return centers[order], weights[order]
  \<close>
  With no pixel at all NumPy would divide 0 by 0 (\<open>NanWeights\<close>).
\<close>

definition kmeans_colors ::
  "(frame \<Rightarrow> nat \<Rightarrow> nat \<Rightarrow> u8x3 list) \<Rightarrow> (nat \<Rightarrow> nat \<Rightarrow> nat \<Rightarrow> nat list) \<Rightarrow> (row list \<Rightarrow> nat \<Rightarrow> row list)
   \<Rightarrow> frame \<Rightarrow> nat \<Rightarrow> nat \<Rightarrow> nat \<Rightarrow> nat \<Rightarrow> error + (u8 list list \<times> real list)" where
  "kmeans_colors resize choice cluster img k sample seed max_side =
     (case downscaled resize img max_side of Inl e \<Rightarrow> Inl e
      | Inr arr \<Rightarrow>
     (let pxs = map as_row (pixels arr);
          data = sample_data choice pxs sample seed
      in case cv2_kmeans cluster data k of Inl e \<Rightarrow> Inl e
      | Inr centers_f \<Rightarrow>
     (let centers = map (map clip_uint8) centers_f
      in case cluster_counts centers (pixels arr) k of Inl e \<Rightarrow> Inl e
      | Inr counts \<Rightarrow>
          if sum_list counts = 0 then Inl NanWeights
          else let weights = map (\<lambda>c. real c / real (sum_list counts)) counts;
                   order = argsort (map uminus weights)
               in if length centers < length weights then Inl IndexError
                  else Inr (map (\<lambda>i. centers ! i) order, map (\<lambda>i. weights ! i) order))))"

section \<open>Auxiliary definitions for the proofs\<close>

text \<open>
  The CIEDE2000 radicand in two stages: \<open>de00_primed\<close> is the computation from the
  corrected coordinates a' on, \<open>de00_final\<close> the weighted sum from the differences
  and means. \<open>radicand_staged\<close> below shows that the source's single block is their
  composition.
\<close>

definition de00_final :: "real \<Rightarrow> real \<Rightarrow> real \<Rightarrow> real \<Rightarrow> real \<Rightarrow> real \<Rightarrow> real \<Rightarrow> real" where
  "de00_final dLp dCp dhp CC Lp_bar Cp_bar hp_bar =
     (let dHp = 2 * sqrt CC * sin (dhp / 2);
          SL = SL_term Lp_bar;
          SC = SC_term Cp_bar;
          SH = SH_term Cp_bar (T_term hp_bar);
          RT = RT_term Cp_bar hp_bar
      in (dLp / SL)\<^sup>2 + (dCp / SC)\<^sup>2 + (dHp / SH)\<^sup>2 + RT * (dCp / SC) * (dHp / SH))"

definition de00_primed :: "real \<Rightarrow> real \<Rightarrow> real \<Rightarrow> real \<Rightarrow> real \<Rightarrow> real \<Rightarrow> real" where
  "de00_primed L1 a1p b1 L2 a2p b2 =
     (let C1p = sqrt (a1p\<^sup>2 + b1\<^sup>2);
          C2p = sqrt (a2p\<^sup>2 + b2\<^sup>2);
          h1p = atan2_wrapped b1 a1p;
          h2p = atan2_wrapped b2 a2p
      in de00_final (L1 - L2) (C1p - C2p) (delta_hp h1p h2p) (C1p * C2p)
           ((L1 + L2) / 2) ((C1p + C2p) / 2) (mean_hp h1p h2p))"

section \<open>Properties of the accessibility helpers\<close>

lemma srgb_to_lin_valid:
  assumes "valid_channel c"
  shows "srgb_to_lin (of_int c) = of_int c / 3294.6"
proof -
  have "real_of_int c \<le> 255" using assms by (simp add: valid_channel_def)
  then have "real_of_int c / 255 \<le> 0.04045 * 255" by simp
  then show ?thesis by (simp add: srgb_to_lin_def)
qed

lemma relative_luminance_nonneg:
  assumes "valid_rgb c"
  shows "0 \<le> relative_luminance c"
proof -
  obtain r g b where c: "c = (r, g, b)" by (cases c)
  from assms c have v: "valid_channel r" "valid_channel g" "valid_channel b" by simp_all
  then have "0 \<le> real_of_int r" "0 \<le> real_of_int g" "0 \<le> real_of_int b"
    by (simp_all add: valid_channel_def)
  then show ?thesis using v by (simp add: c srgb_to_lin_valid)
qed

lemma contrast_ratio_same:
  assumes "valid_rgb x"
  shows "contrast_ratio x x = 1"
  using relative_luminance_nonneg [OF assms] by (simp add: contrast_ratio_def Let_def)

text \<open>
  C2. \<^verbatim>\<open>contrast_ratio\<close> of pure black and pure white: the source's transfer
  function takes its linear branch for every channel value up to 255, so white has
  relative luminance 1/12.92 and the ratio is 823/323 (about 2.548), not 21.
\<close>

theorem contrast_ratio_black_white:
  "contrast_ratio (0, 0, 0) (255, 255, 255) = 823 / 323"
  by (simp add: contrast_ratio_def srgb_to_lin_def)

text \<open>
  C9. For valid sRGB colours the contrast ratio does not depend on the order of
  its arguments and is at least 1.
\<close>

theorem contrast_ratio_symmetric_ge_1:
  assumes "valid_rgb a" and "valid_rgb b"
  shows "contrast_ratio a b = contrast_ratio b a \<and> 1 \<le> contrast_ratio a b"
proof -
  have la: "0 \<le> relative_luminance a" and lb: "0 \<le> relative_luminance b"
    using assms by (simp_all add: relative_luminance_nonneg)
  have sym: "contrast_ratio a b = contrast_ratio b a"
    by (cases "relative_luminance a = relative_luminance b")
       (auto simp: contrast_ratio_def Let_def)
  have ge: "1 \<le> contrast_ratio a b"
    using la lb by (auto simp: contrast_ratio_def Let_def)
  from sym ge show ?thesis by simp
qed

theorem contrast_ratio_symmetric_ge_1_witness:
  "valid_rgb (12, 200, 255) \<and> valid_rgb (0, 0, 0)
   \<and> contrast_ratio (12, 200, 255) (0, 0, 0) = contrast_ratio (0, 0, 0) (12, 200, 255)
   \<and> 1 \<le> contrast_ratio (12, 200, 255) (0, 0, 0)"
proof -
  have h1: "valid_rgb (12, 200, 255)" by (simp add: valid_channel_def)
  have h2: "valid_rgb (0, 0, 0)" by (simp add: valid_channel_def)
  show ?thesis using h1 h2 contrast_ratio_symmetric_ge_1 [OF h1 h2] by simp
qed

section \<open>Properties of the hexadecimal conversions\<close>

lemma digit_value_cases:
  assumes "digit_value c = Some v"
  shows "(c, v) \<in> {(CHR ''0'', 0), (CHR ''1'', 1), (CHR ''2'', 2), (CHR ''3'', 3), (CHR ''4'', 4),
                  (CHR ''5'', 5), (CHR ''6'', 6), (CHR ''7'', 7), (CHR ''8'', 8), (CHR ''9'', 9),
                  (CHR ''a'', 10), (CHR ''b'', 11), (CHR ''c'', 12), (CHR ''d'', 13),
                  (CHR ''e'', 14), (CHR ''f'', 15),
                  (CHR ''A'', 10), (CHR ''B'', 11), (CHR ''C'', 12), (CHR ''D'', 13),
                  (CHR ''E'', 14), (CHR ''F'', 15)}"
proof -
  define n where "n = (of_char c :: nat)"
  have c: "c = char_of n" by (simp add: n_def)
  have "n \<in> {48, 49, 50, 51, 52, 53, 54, 55, 56, 57} \<and> v = int n - 48
        \<or> n \<in> {97, 98, 99, 100, 101, 102} \<and> v = int n - 87
        \<or> n \<in> {65, 66, 67, 68, 69, 70} \<and> v = int n - 55"
    using assms unfolding digit_value_def n_def [symmetric] Let_def
    by (auto split: if_splits; presburger)
  then show ?thesis unfolding c by (elim disjE conjE insertE emptyE; simp add: char_of_def bit_Suc_0_iff)
qed

lemma digit_value_props:
  assumes "digit_value c = Some v"
  shows "0 \<le> v" and "v < 16" and "hex_digit (nat v) = lower_char c"
    and "\<not> is_space c" and "c \<noteq> CHR ''+''" and "c \<noteq> CHR ''-''" and "c \<noteq> CHR ''_''"
    and "c \<noteq> CHR ''x''" and "c \<noteq> CHR ''X''" and "c \<noteq> CHR ''#''"
  using digit_value_cases [OF assms]
  by (auto simp: hex_digit_def lower_char_def is_space_def char_of_def bit_Suc_0_iff)

lemma digit_value_hex_digit:
  assumes "n < 16"
  shows "digit_value (hex_digit n) = Some (int n)"
proof -
  have "n = 0 \<or> n = 1 \<or> n = 2 \<or> n = 3 \<or> n = 4 \<or> n = 5 \<or> n = 6 \<or> n = 7 \<or> n = 8
        \<or> n = 9 \<or> n = 10 \<or> n = 11 \<or> n = 12 \<or> n = 13 \<or> n = 14 \<or> n = 15"
    using assms by arith
  then show ?thesis
    by (elim disjE; simp add: hex_digit_def digit_value_def)
qed

lemma strip_two_digits:
  assumes "\<not> is_space c" and "\<not> is_space d"
  shows "strip [c, d] = [c, d]"
  using assms by (simp add: strip_def)

lemma int16_two_digits:
  assumes c: "digit_value c = Some v" and d: "digit_value d = Some w"
  shows "int16 [c, d] = Inr (16 * v + w)"
proof -
  note pc = digit_value_props [OF c] and pd = digit_value_props [OF d]
  have s: "strip [c, d] = [c, d]" using pc(4) pd(4) by (rule strip_two_digits)
  have p: "parse_digits [c, d] = Some (16 * v + w)"
    using c d by (simp add: parse_digits_def)
  show ?thesis
    unfolding int16_def s using pc(5,6) pd(8,9) p by (simp add: Let_def)
qed

lemma hex_digits_two:
  assumes "n < 256"
  shows "(let ds = hex_digits n in if length ds < 2 then CHR ''0'' # ds else ds)
         = [hex_digit (n div 16), hex_digit (n mod 16)]"
proof (cases "n < 16")
  case True
  then show ?thesis by (simp add: hex_digits.simps hex_digit_def)
next
  case False
  then have "n div 16 < 16" using assms by simp
  then have "hex_digits (n div 16) = [hex_digit (n div 16)]"
    by (simp add: hex_digits.simps)
  then show ?thesis using False by (simp add: hex_digits.simps [of n])
qed

lemma format_02x_valid:
  assumes "valid_channel v"
  shows "format_02x v = [hex_digit (nat v div 16), hex_digit (nat v mod 16)]"
proof -
  have "0 \<le> v" "nat v < 256" using assms by (auto simp: valid_channel_def)
  then show ?thesis using hex_digits_two [of "nat v"] by (simp add: format_02x_def)
qed

lemma int16_format_02x:
  assumes "valid_channel v"
  shows "int16 (format_02x v) = Inr v"
proof -
  have v: "0 \<le> v" "nat v < 256" using assms by (auto simp: valid_channel_def)
  then have hi: "nat v div 16 < 16" and lo: "nat v mod 16 < 16" by simp_all
  have "int16 (format_02x v) = Inr (16 * int (nat v div 16) + int (nat v mod 16))"
    unfolding format_02x_valid [OF assms]
    by (rule int16_two_digits [OF digit_value_hex_digit [OF hi] digit_value_hex_digit [OF lo]])
  also have "16 * int (nat v div 16) + int (nat v mod 16) = int (nat v)"
    by (simp add: zdiv_int zmod_int)
  finally show ?thesis using v(1) by simp
qed

lemma hex_digit_not_hash:
  assumes "n < 16"
  shows "hex_digit n \<noteq> CHR ''#''"
  using digit_value_props(10) [OF digit_value_hex_digit [OF assms]] .

lemma hex_to_rgb_six:
  assumes "c1 \<noteq> CHR ''#''"
  shows "hex_to_rgb (CHR ''#'' # [c1, c2, c3, c4, c5, c6]) =
         (case int16 [c1, c2] of Inl e \<Rightarrow> Inl e
          | Inr r \<Rightarrow> (case int16 [c3, c4] of Inl e \<Rightarrow> Inl e
          | Inr g \<Rightarrow> (case int16 [c5, c6] of Inl e \<Rightarrow> Inl e
          | Inr b \<Rightarrow> Inr (r, g, b))))"
  using assms by (simp add: hex_to_rgb_def Let_def cong: sum.case_cong)

lemma hex_to_rgb_rgb_to_hex:
  assumes "valid_rgb c"
  shows "hex_to_rgb (rgb_to_hex c) = Inr c"
proof -
  obtain r g b where c: "c = (r, g, b)" by (cases c)
  from assms c have v: "valid_channel r" "valid_channel g" "valid_channel b" by simp_all
  have "0 \<le> r" "nat r < 256" using v(1) by (auto simp: valid_channel_def)
  then have "nat r div 16 < 16" by simp
  then have nh: "hex_digit (nat r div 16) \<noteq> CHR ''#''" by (rule hex_digit_not_hash)
  have ir: "int16 [hex_digit (nat r div 16), hex_digit (nat r mod 16)] = Inr r"
    using int16_format_02x [OF v(1)] by (simp only: format_02x_valid [OF v(1)])
  have ig: "int16 [hex_digit (nat g div 16), hex_digit (nat g mod 16)] = Inr g"
    using int16_format_02x [OF v(2)] by (simp only: format_02x_valid [OF v(2)])
  have ib: "int16 [hex_digit (nat b div 16), hex_digit (nat b mod 16)] = Inr b"
    using int16_format_02x [OF v(3)] by (simp only: format_02x_valid [OF v(3)])
  have "rgb_to_hex c = CHR ''#'' # [hex_digit (nat r div 16), hex_digit (nat r mod 16),
          hex_digit (nat g div 16), hex_digit (nat g mod 16),
          hex_digit (nat b div 16), hex_digit (nat b mod 16)]"
    by (simp add: c format_02x_valid v)
  then show ?thesis
    by (simp only: hex_to_rgb_six [OF nh] ir ig ib c sum.case)
qed

lemma format_02x_two_digits:
  assumes c: "digit_value c = Some v" and d: "digit_value d = Some w"
  shows "valid_channel (16 * v + w)"
    and "format_02x (16 * v + w) = [lower_char c, lower_char d]"
proof -
  note pc = digit_value_props [OF c] and pd = digit_value_props [OF d]
  show vc: "valid_channel (16 * v + w)"
    using pc(1,2) pd(1,2) by (simp add: valid_channel_def)
  have dv: "nat (16 * v + w) div 16 = nat v" and md: "nat (16 * v + w) mod 16 = nat w"
    using pc(1,2) pd(1,2) by (simp_all add: nat_add_distrib nat_mult_distrib)
  show "format_02x (16 * v + w) = [lower_char c, lower_char d]"
    by (simp add: format_02x_valid [OF vc] dv md pc(3) pd(3))
qed

lemma rgb_to_hex_hex_to_rgb:
  assumes "well_formed_hex s"
  shows "\<exists>c. hex_to_rgb s = Inr c \<and> valid_rgb c \<and> rgb_to_hex c = map lower_char s"
proof -
  from assms obtain ds where s: "s = CHR ''#'' # ds" and len: "length ds = 6"
    and hx: "list_all is_hex_char ds"
    by (auto simp: well_formed_hex_def split: list.splits)
  from len obtain c1 c2 c3 c4 c5 c6 where ds: "ds = [c1, c2, c3, c4, c5, c6]"
    by (auto simp: length_Suc_conv eval_nat_numeral)
  from hx ds obtain v1 v2 v3 v4 v5 v6 where
    d: "digit_value c1 = Some v1" "digit_value c2 = Some v2" "digit_value c3 = Some v3"
       "digit_value c4 = Some v4" "digit_value c5 = Some v5" "digit_value c6 = Some v6"
    by (auto simp: is_hex_char_def)
  have nh: "c1 \<noteq> CHR ''#''" by (rule digit_value_props(10) [OF d(1)])
  have h: "hex_to_rgb s = Inr (16 * v1 + v2, 16 * v3 + v4, 16 * v5 + v6)"
    unfolding s ds hex_to_rgb_six [OF nh]
    by (simp add: int16_two_digits [OF d(1) d(2)] int16_two_digits [OF d(3) d(4)]
          int16_two_digits [OF d(5) d(6)])
  have low: "lower_char (CHR ''#'') = CHR ''#''" by (simp add: lower_char_def)
  have "rgb_to_hex (16 * v1 + v2, 16 * v3 + v4, 16 * v5 + v6) = map lower_char s"
    by (simp add: s ds low format_02x_two_digits(2) [OF d(1) d(2)]
          format_02x_two_digits(2) [OF d(3) d(4)] format_02x_two_digits(2) [OF d(5) d(6)])
  moreover have "valid_rgb (16 * v1 + v2, 16 * v3 + v4, 16 * v5 + v6)"
    by (simp add: format_02x_two_digits(1) [OF d(1) d(2)]
          format_02x_two_digits(1) [OF d(3) d(4)] format_02x_two_digits(1) [OF d(5) d(6)])
  ultimately show ?thesis using h by blast
qed

text \<open>
  C10. Encoding a valid colour and decoding the string gives the colour back; decoding a
  well-formed string \<^verbatim>\<open>#rrggbb\<close> and encoding the colour gives the string in lower case.
\<close>

theorem hex_round_trip:
  "(valid_rgb c \<longrightarrow> hex_to_rgb (rgb_to_hex c) = Inr c)
   \<and> (well_formed_hex s \<longrightarrow>
        (\<exists>c'. hex_to_rgb s = Inr c' \<and> rgb_to_hex c' = map lower_char s))"
proof (intro conjI impI)
  assume "valid_rgb c"
  then show "hex_to_rgb (rgb_to_hex c) = Inr c" by (rule hex_to_rgb_rgb_to_hex)
next
  assume "well_formed_hex s"
  then show "\<exists>c'. hex_to_rgb s = Inr c' \<and> rgb_to_hex c' = map lower_char s"
    using rgb_to_hex_hex_to_rgb by blast
qed

theorem hex_round_trip_witness:
  "valid_rgb (255, 0, 18) \<and> well_formed_hex ''#Ff0a9C''
   \<and> hex_to_rgb (rgb_to_hex (255, 0, 18)) = Inr (255, 0, 18)
   \<and> (\<exists>c'. hex_to_rgb ''#Ff0a9C'' = Inr c' \<and> rgb_to_hex c' = map lower_char ''#Ff0a9C'')"
proof -
  have h1: "valid_rgb (255, 0, 18)" by (simp add: valid_channel_def)
  have h2: "well_formed_hex ''#Ff0a9C''"
    by (simp add: well_formed_hex_def is_hex_char_def digit_value_def)
  show ?thesis
    using h1 h2 hex_round_trip [of "(255, 0, 18)" "''#Ff0a9C''"] by blast
qed

section \<open>Properties of the Lab conversion\<close>

lemma astype_uint8_mod_256: "astype_uint8 (c mod 256) = astype_uint8 c"
  by (simp add: astype_uint8_def word_of_int_eq_iff take_bit_eq_mod)

lemma rgb_to_bgr_uint8_mod_256: "rgb_to_bgr_uint8 (mod_256 p) = rgb_to_bgr_uint8 p"
  by (cases p) (simp add: astype_uint8_mod_256)

lemma rgb_to_lab_channel_range:
  assumes "rgb_to_lab cvt rgb = Inr labs" and "(L, a, b) \<in> set labs"
  shows "0 \<le> L \<and> L \<le> 255 \<and> 0 \<le> a \<and> a \<le> 255 \<and> 0 \<le> b \<and> b \<le> 255"
proof -
  have u: "real (unat x) \<le> 255" for x :: u8
  proof -
    have "unat x < 2 ^ LENGTH(8)" by (rule unsigned_less)
    then have "unat x \<le> 255" by simp
    then have "real (unat x) \<le> real 255" by (simp only: of_nat_le_iff)
    then show ?thesis by simp
  qed
  have z: "0 \<le> real (unat x)" for x :: u8
    by (rule of_nat_0_le_iff)
  from assms obtain p where "(L, a, b) = astype_float32 (cvt p)"
    by (auto simp: rgb_to_lab_def Let_def split: if_splits)
  then show ?thesis using u z by (cases "cvt p") auto
qed

text \<open>
  C1. The conversion of pure white: OpenCV's 8-bit encoding stores L* = 100 as 255 and
  a* = b* = 0 as 128, and the source passes these on as floats. The lightness 255 is
  not in [0,100] and the two other channels are not in [-128,127].
\<close>

theorem rgb_to_lab_white:
  "rgb_to_lab cv2_bgr2lab [(255, 255, 255)] = Inr [(255, 128, 128)]"
proof -
  have g: "srgb_gamma 1 = 1" by (simp add: srgb_gamma_def)
  have f: "lab_f 1 = 1" by (simp add: lab_f_def)
  have "cv2_bgr2lab (255, 255, 255) = (255, 128, 128)"
    by (simp add: cv2_bgr2lab_def Let_def g f saturate_uint8_def)
  then show ?thesis by (simp add: rgb_to_lab_def astype_uint8_def)
qed

text \<open>
  C8, as the code has it. The conversion checks no range: it never rejects a non-empty
  batch, and it converts a colour exactly as it converts the colour whose channels are
  reduced modulo 256.
\<close>

theorem rgb_to_lab_reduces_mod_256:
  "rgb_to_lab cvt (c # cs) = Inr (map (\<lambda>p. astype_float32 (cvt (rgb_to_bgr_uint8 p))) (c # cs))
   \<and> rgb_to_lab cvt (map mod_256 (c # cs)) = rgb_to_lab cvt (c # cs)"
  by (simp add: rgb_to_lab_def rgb_to_bgr_uint8_mod_256 comp_def)

text \<open>
  C8, as stated, fails: the colour (256, -1, 300) has every channel outside [0,255] and
  is converted as (0, 255, 44), whatever OpenCV's conversion is.
\<close>

theorem rgb_to_lab_out_of_range_accepted:
  "\<forall>cvt. rgb_to_lab cvt [(256, - 1, 300)] = Inr [astype_float32 (cvt (44, 255, 0))]"
proof -
  have "astype_uint8 256 = 0" and "astype_uint8 (- 1) = 255" and "astype_uint8 300 = 44"
    by (simp_all add: astype_uint8_def)
  then have "rgb_to_bgr_uint8 (256, - 1, 300) = (44, 255, 0)" by simp
  then show ?thesis by (simp add: rgb_to_lab_def del: rgb_to_bgr_uint8.simps)
qed

section \<open>Properties of the distance metrics\<close>

lemma radicand_staged:
  "deltaE2000_radicand (L1, a1, b1) (L2, a2, b2) =
     (let G = G_factor ((sqrt (a1\<^sup>2 + b1\<^sup>2) + sqrt (a2\<^sup>2 + b2\<^sup>2)) / 2)
      in de00_primed L1 ((1 + G) * a1) b1 L2 ((1 + G) * a2) b2)"
  by (simp add: deltaE2000_radicand_def Let_def de00_primed_def de00_final_def)

lemma delta_hp_swap: "delta_hp h2 h1 = - delta_hp h1 h2"
proof -
  have "0 < pi" by simp
  then show ?thesis unfolding delta_hp_def Let_def by (auto; linarith)
qed

lemma mean_hp_swap: "mean_hp h2 h1 = mean_hp h1 h2"
  by (simp add: mean_hp_def Let_def add.commute abs_minus_commute)

lemma de00_final_neg:
  "de00_final (- dLp) (- dCp) (- dhp) CC Lb Cb hb = de00_final dLp dCp dhp CC Lb Cb hb"
  by (simp add: de00_final_def Let_def)

lemma de00_primed_swap:
  "de00_primed L2 a2p b2 L1 a1p b1 = de00_primed L1 a1p b1 L2 a2p b2"
proof -
  define C1p where "C1p = sqrt (a1p\<^sup>2 + b1\<^sup>2)"
  define C2p where "C2p = sqrt (a2p\<^sup>2 + b2\<^sup>2)"
  define h1p where "h1p = atan2_wrapped b1 a1p"
  define h2p where "h2p = atan2_wrapped b2 a2p"
  have "de00_primed L2 a2p b2 L1 a1p b1 =
        de00_final (L2 - L1) (C2p - C1p) (delta_hp h2p h1p) (C2p * C1p)
           ((L2 + L1) / 2) ((C2p + C1p) / 2) (mean_hp h2p h1p)"
    by (simp add: de00_primed_def Let_def C1p_def C2p_def h1p_def h2p_def)
  also have "\<dots> = de00_final (- (L1 - L2)) (- (C1p - C2p)) (- delta_hp h1p h2p) (C1p * C2p)
           ((L1 + L2) / 2) ((C1p + C2p) / 2) (mean_hp h1p h2p)"
    by (simp only: minus_diff_eq delta_hp_swap [of h2p h1p] mean_hp_swap [of h2p h1p]
          mult.commute [of C2p C1p] add.commute [of L2 L1] add.commute [of C2p C1p])
  also have "\<dots> = de00_final (L1 - L2) (C1p - C2p) (delta_hp h1p h2p) (C1p * C2p)
           ((L1 + L2) / 2) ((C1p + C2p) / 2) (mean_hp h1p h2p)"
    by (rule de00_final_neg)
  also have "\<dots> = de00_primed L1 a1p b1 L2 a2p b2"
    by (simp add: de00_primed_def Let_def C1p_def C2p_def h1p_def h2p_def)
  finally show ?thesis .
qed

lemma radicand_swap: "deltaE2000_radicand q p = deltaE2000_radicand p q"
proof -
  obtain L1 a1 b1 where p: "p = (L1, a1, b1)" by (cases p)
  obtain L2 a2 b2 where q: "q = (L2, a2, b2)" by (cases q)
  show ?thesis
    unfolding p q radicand_staged Let_def
    by (simp only: add.commute [of "sqrt (a2\<^sup>2 + b2\<^sup>2)" "sqrt (a1\<^sup>2 + b1\<^sup>2)"]
          de00_primed_swap [of L1 _ b1 L2 _ b2])
qed

lemma ratio7_bounds:
  assumes "0 \<le> (c::real)"
  shows "0 \<le> c ^ 7 / (c ^ 7 + 25 ^ 7)" and "c ^ 7 / (c ^ 7 + 25 ^ 7) < 1"
proof -
  have "0 \<le> c ^ 7" using assms by simp
  then show "0 \<le> c ^ 7 / (c ^ 7 + 25 ^ 7)" by simp
  have "0 < c ^ 7 + 25 ^ 7" using \<open>0 \<le> c ^ 7\<close> by (rule add_nonneg_pos) simp
  then show "c ^ 7 / (c ^ 7 + 25 ^ 7) < 1" by simp
qed

lemma sqrt_ratio7_bounds:
  assumes "0 \<le> (c::real)"
  shows "0 \<le> sqrt (c ^ 7 / (c ^ 7 + 25 ^ 7))" and "sqrt (c ^ 7 / (c ^ 7 + 25 ^ 7)) < 1"
proof -
  show "0 \<le> sqrt (c ^ 7 / (c ^ 7 + 25 ^ 7))"
    using ratio7_bounds(1) [OF assms] by simp
  have "sqrt (c ^ 7 / (c ^ 7 + 25 ^ 7)) < sqrt 1"
    using ratio7_bounds(2) [OF assms] by (simp only: real_sqrt_less_iff)
  then show "sqrt (c ^ 7 / (c ^ 7 + 25 ^ 7)) < 1" by simp
qed

lemma G_factor_pos:
  assumes "0 \<le> c"
  shows "0 < G_factor c"
  using sqrt_ratio7_bounds(2) [OF assms] by (simp add: G_factor_def Let_def)

lemma T_term_lower: "7 / 100 \<le> T_term h"
proof -
  have c1: "cos (h - deg2rad 30) \<le> 1" by (rule cos_le_one)
  have c2: "- 1 \<le> cos (2 * h)" by (rule cos_ge_minus_one)
  have c3: "- 1 \<le> cos (3 * h + deg2rad 6)" by (rule cos_ge_minus_one)
  have c4: "cos (4 * h - deg2rad 63) \<le> 1" by (rule cos_le_one)
  have "T_term h = 1 - (17 / 100) * cos (h - deg2rad 30) + (24 / 100) * cos (2 * h)
                    + (32 / 100) * cos (3 * h + deg2rad 6) - (20 / 100) * cos (4 * h - deg2rad 63)"
    by (simp add: T_term_def)
  then show ?thesis using c1 c2 c3 c4 by linarith
qed

lemma SL_term_ge_1: "1 \<le> SL_term l"
proof -
  have "0 \<le> (0.015 * (l - 50)\<^sup>2) / sqrt (20 + (l - 50)\<^sup>2)"
    by (intro divide_nonneg_nonneg mult_nonneg_nonneg real_sqrt_ge_zero) simp_all
  then show ?thesis by (simp add: SL_term_def)
qed

lemma SC_term_ge_1: "0 \<le> c \<Longrightarrow> 1 \<le> SC_term c"
  by (simp add: SC_term_def)

lemma SH_term_ge_1:
  assumes "0 \<le> c"
  shows "1 \<le> SH_term c (T_term h)"
proof -
  have "0 \<le> T_term h" using T_term_lower [of h] by linarith
  then have "0 \<le> 0.015 * c * T_term h" using assms by simp
  then show ?thesis by (simp add: SH_term_def)
qed

lemma RT_term_bound:
  assumes "0 \<le> c"
  shows "\<bar>RT_term c h\<bar> < 2"
proof -
  define th where "th = deg2rad 30 * exp (- (((rad2deg h - 275) / 25)\<^sup>2))"
  define rc where "rc = 2 * sqrt (c ^ 7 / (c ^ 7 + 25 ^ 7))"
  have rt: "RT_term c h = - sin (2 * th) * rc"
    by (simp add: RT_term_def Let_def th_def rc_def)
  have rc0: "0 \<le> rc" and rc2: "rc < 2"
    using sqrt_ratio7_bounds [OF assms] by (simp_all add: rc_def)
  have "\<bar>sin (2 * th)\<bar> \<le> 1" by (rule abs_sin_le_one)
  then have "\<bar>sin (2 * th)\<bar> * rc \<le> 1 * rc"
    using rc0 by (rule mult_right_mono)
  then have "\<bar>RT_term c h\<bar> \<le> rc"
    using rc0 by (simp add: rt abs_mult)
  with rc2 show ?thesis by linarith
qed

lemma quad_form_decomp:
  fixes y z t :: real
  shows "y\<^sup>2 + z\<^sup>2 + t * y * z = (1 - t / 2) * (y\<^sup>2 + z\<^sup>2) + (t / 2) * (y + z)\<^sup>2"
    and "y\<^sup>2 + z\<^sup>2 + t * y * z = (1 + t / 2) * (y\<^sup>2 + z\<^sup>2) + (- t / 2) * (y - z)\<^sup>2"
  by (simp_all add: power2_eq_square algebra_simps)

lemma quad_form_lower:
  fixes y z t :: real
  assumes "\<bar>t\<bar> < 2"
  shows "(1 - \<bar>t\<bar> / 2) * (y\<^sup>2 + z\<^sup>2) \<le> y\<^sup>2 + z\<^sup>2 + t * y * z"
proof (cases "0 \<le> t")
  case True
  have "0 \<le> (t / 2) * (y + z)\<^sup>2" using True by simp
  then show ?thesis using True quad_form_decomp(1) [of y z t] by simp
next
  case False
  then have "0 \<le> (- t / 2) * (y - z)\<^sup>2" by (intro mult_nonneg_nonneg) simp_all
  then show ?thesis using False quad_form_decomp(2) [of y z t] by simp
qed

lemma quad_form_nonneg:
  fixes x y z t :: real
  assumes "\<bar>t\<bar> < 2"
  shows "0 \<le> x\<^sup>2 + y\<^sup>2 + z\<^sup>2 + t * y * z"
proof -
  have "0 \<le> (1 - \<bar>t\<bar> / 2) * (y\<^sup>2 + z\<^sup>2)"
    using assms by (intro mult_nonneg_nonneg) simp_all
  then have "0 \<le> y\<^sup>2 + z\<^sup>2 + t * y * z"
    using quad_form_lower [OF assms, of y z] by linarith
  moreover have "0 \<le> x\<^sup>2" by simp
  ultimately show ?thesis by linarith
qed

lemma quad_form_zero_iff:
  fixes x y z t :: real
  assumes "\<bar>t\<bar> < 2"
  shows "x\<^sup>2 + y\<^sup>2 + z\<^sup>2 + t * y * z = 0 \<longleftrightarrow> x = 0 \<and> y = 0 \<and> z = 0"
proof
  assume eq: "x\<^sup>2 + y\<^sup>2 + z\<^sup>2 + t * y * z = 0"
  have pos: "0 < 1 - \<bar>t\<bar> / 2" using assms by simp
  have low: "(1 - \<bar>t\<bar> / 2) * (y\<^sup>2 + z\<^sup>2) \<le> y\<^sup>2 + z\<^sup>2 + t * y * z"
    by (rule quad_form_lower [OF assms])
  have nn: "0 \<le> (1 - \<bar>t\<bar> / 2) * (y\<^sup>2 + z\<^sup>2)"
    using pos by (intro mult_nonneg_nonneg) simp_all
  have x2: "0 \<le> x\<^sup>2" by simp
  from eq low nn x2 have "x\<^sup>2 = 0" and "(1 - \<bar>t\<bar> / 2) * (y\<^sup>2 + z\<^sup>2) = 0"
    by linarith+
  then have "x = 0" and "y\<^sup>2 + z\<^sup>2 = 0" using pos by simp_all
  then show "x = 0 \<and> y = 0 \<and> z = 0"
    by (simp add: sum_power2_eq_zero_iff)
next
  assume "x = 0 \<and> y = 0 \<and> z = 0"
  then show "x\<^sup>2 + y\<^sup>2 + z\<^sup>2 + t * y * z = 0" by simp
qed

lemma polar_arctan:
  fixes x y :: real
  assumes "x \<noteq> 0"
  shows "sqrt (x\<^sup>2 + y\<^sup>2) * cos (arctan (y / x)) = \<bar>x\<bar>"
    and "sqrt (x\<^sup>2 + y\<^sup>2) * sin (arctan (y / x)) = \<bar>x\<bar> * (y / x)"
proof -
  define t where "t = y / x"
  have y: "y = t * x" using assms by (simp add: t_def)
  have "x\<^sup>2 + y\<^sup>2 = x\<^sup>2 * (1 + t\<^sup>2)"
    by (simp add: y power_mult_distrib algebra_simps)
  then have r: "sqrt (x\<^sup>2 + y\<^sup>2) = \<bar>x\<bar> * sqrt (1 + t\<^sup>2)"
    by (simp add: real_sqrt_mult)
  have pos: "0 < sqrt (1 + t\<^sup>2)"
    by (simp add: add_pos_nonneg)
  show "sqrt (x\<^sup>2 + y\<^sup>2) * cos (arctan (y / x)) = \<bar>x\<bar>"
    using pos unfolding r t_def [symmetric] cos_arctan by simp
  show "sqrt (x\<^sup>2 + y\<^sup>2) * sin (arctan (y / x)) = \<bar>x\<bar> * (y / x)"
    using pos unfolding r t_def [symmetric] sin_arctan by simp
qed

lemma polar_arctan2:
  fixes x y :: real
  shows "sqrt (x\<^sup>2 + y\<^sup>2) * cos (arctan2 y x) = x"
    and "sqrt (x\<^sup>2 + y\<^sup>2) * sin (arctan2 y x) = y"
proof -
  consider (pos) "0 < x" | (neg) "x < 0" | (zero) "x = 0" by linarith
  then have "sqrt (x\<^sup>2 + y\<^sup>2) * cos (arctan2 y x) = x
           \<and> sqrt (x\<^sup>2 + y\<^sup>2) * sin (arctan2 y x) = y"
  proof cases
    case pos
    then have nz: "x \<noteq> 0" by simp
    show ?thesis using pos polar_arctan [OF nz, of y] by (simp add: arctan2_def)
  next
    case neg
    then have nz: "x \<noteq> 0" by simp
    have c: "sqrt (x\<^sup>2 + y\<^sup>2) * - cos (arctan (y / x)) = x"
      using neg polar_arctan(1) [OF nz, of y] by simp
    have s: "sqrt (x\<^sup>2 + y\<^sup>2) * - sin (arctan (y / x)) = y"
      using neg polar_arctan(2) [OF nz, of y] by simp
    show ?thesis using neg c s by (simp add: arctan2_def)
  next
    case zero
    then show ?thesis by (simp add: arctan2_def)
  qed
  then show "sqrt (x\<^sup>2 + y\<^sup>2) * cos (arctan2 y x) = x"
    and "sqrt (x\<^sup>2 + y\<^sup>2) * sin (arctan2 y x) = y" by simp_all
qed

lemma arctan2_range: "- pi < arctan2 y x \<and> arctan2 y x \<le> pi"
proof -
  have b: "- (pi / 2) < arctan (y / x)" "arctan (y / x) < pi / 2"
    by (rule arctan_lbound, rule arctan_ubound)
  have p: "0 < pi" by simp
  consider (pos) "0 < x" | (neg1) "x < 0" "0 \<le> y" | (neg2) "x < 0" "y < 0" | (zero) "x = 0"
    by linarith
  then show ?thesis
  proof cases
    case pos
    then show ?thesis using b p by (simp add: arctan2_def, linarith?)
  next
    case neg1
    then have "y / x \<le> 0" by (simp add: divide_nonneg_neg)
    then have "arctan (y / x) \<le> 0" by simp
    then show ?thesis using neg1 b p by (simp add: arctan2_def, linarith?)
  next
    case neg2
    then have "0 < y / x" by (simp add: divide_neg_neg)
    then have "0 < arctan (y / x)" by simp
    then show ?thesis using neg2 b p by (simp add: arctan2_def, linarith?)
  next
    case zero
    then show ?thesis using p by (simp add: arctan2_def, linarith?)
  qed
qed

lemma atan2_wrapped_range: "0 \<le> atan2_wrapped y x \<and> atan2_wrapped y x < 2 * pi"
  using arctan2_range [of y x] pi_gt_zero
  by (simp add: atan2_wrapped_def Let_def, linarith?)

lemma polar_atan2_wrapped:
  fixes x y :: real
  shows "sqrt (x\<^sup>2 + y\<^sup>2) * cos (atan2_wrapped y x) = x"
    and "sqrt (x\<^sup>2 + y\<^sup>2) * sin (atan2_wrapped y x) = y"
  using polar_arctan2 [of x y] by (simp_all add: atan2_wrapped_def Let_def)

lemma delta_hp_bounds:
  assumes "0 \<le> h1" "h1 < 2 * pi" "0 \<le> h2" "h2 < 2 * pi"
  shows "- pi \<le> delta_hp h1 h2 \<and> delta_hp h1 h2 \<le> pi"
  using assms unfolding delta_hp_def Let_def by (auto; linarith)

lemma delta_hp_zero_iff:
  assumes "0 \<le> h1" "h1 < 2 * pi" "0 \<le> h2" "h2 < 2 * pi"
  shows "delta_hp h1 h2 = 0 \<longleftrightarrow> h1 = h2"
  using assms pi_gt_zero unfolding delta_hp_def Let_def by (auto; linarith)

lemma de00_final_quad:
  "de00_final dL dC dh CC Lb Cb hb =
     (dL / SL_term Lb)\<^sup>2 + (dC / SC_term Cb)\<^sup>2
     + (2 * sqrt CC * sin (dh / 2) / SH_term Cb (T_term hb))\<^sup>2
     + RT_term Cb hb * (dC / SC_term Cb) * (2 * sqrt CC * sin (dh / 2) / SH_term Cb (T_term hb))"
  by (simp add: de00_final_def Let_def)

lemma de00_final_nonneg:
  assumes "0 \<le> Cb"
  shows "0 \<le> de00_final dL dC dh CC Lb Cb hb"
  unfolding de00_final_quad by (rule quad_form_nonneg [OF RT_term_bound [OF assms]])

lemma de00_final_zero_iff:
  assumes "0 \<le> Cb"
  shows "de00_final dL dC dh CC Lb Cb hb = 0
         \<longleftrightarrow> dL = 0 \<and> dC = 0 \<and> 2 * sqrt CC * sin (dh / 2) = 0"
proof -
  have sl: "SL_term Lb \<noteq> 0" using SL_term_ge_1 [of Lb] by linarith
  have sc: "SC_term Cb \<noteq> 0" using SC_term_ge_1 [OF assms] by linarith
  have sh: "SH_term Cb (T_term hb) \<noteq> 0" using SH_term_ge_1 [OF assms, of hb] by linarith
  show ?thesis
    unfolding de00_final_quad quad_form_zero_iff [OF RT_term_bound [OF assms]]
    using sl sc sh by simp
qed

lemma chroma_nonneg: "0 \<le> (sqrt (a\<^sup>2 + b\<^sup>2) + sqrt (c\<^sup>2 + d\<^sup>2)) / 2"
  by simp

lemma de00_primed_nonneg: "0 \<le> de00_primed L1 a1p b1 L2 a2p b2"
  unfolding de00_primed_def Let_def by (rule de00_final_nonneg [OF chroma_nonneg])

lemma de00_primed_zero_iff:
  "de00_primed L1 a1p b1 L2 a2p b2 = 0 \<longleftrightarrow> L1 = L2 \<and> a1p = a2p \<and> b1 = b2"
proof -
  define C1p where "C1p = sqrt (a1p\<^sup>2 + b1\<^sup>2)"
  define C2p where "C2p = sqrt (a2p\<^sup>2 + b2\<^sup>2)"
  define h1p where "h1p = atan2_wrapped b1 a1p"
  define h2p where "h2p = atan2_wrapped b2 a2p"
  have C1: "0 \<le> C1p" and C2: "0 \<le> C2p" by (simp_all add: C1p_def C2p_def)
  have h1: "0 \<le> h1p" "h1p < 2 * pi" and h2: "0 \<le> h2p" "h2p < 2 * pi"
    using atan2_wrapped_range [of b1 a1p] atan2_wrapped_range [of b2 a2p]
    by (simp_all add: h1p_def h2p_def)
  have pol1: "C1p * cos h1p = a1p" "C1p * sin h1p = b1"
    unfolding C1p_def h1p_def by (rule polar_atan2_wrapped)+
  have pol2: "C2p * cos h2p = a2p" "C2p * sin h2p = b2"
    unfolding C2p_def h2p_def by (rule polar_atan2_wrapped)+
  have unf: "de00_primed L1 a1p b1 L2 a2p b2 = 0
             \<longleftrightarrow> L1 - L2 = 0 \<and> C1p - C2p = 0 \<and> 2 * sqrt (C1p * C2p) * sin (delta_hp h1p h2p / 2) = 0"
    unfolding de00_primed_def Let_def C1p_def C2p_def h1p_def h2p_def
    by (rule de00_final_zero_iff [OF chroma_nonneg])
  show ?thesis
  proof
    assume "de00_primed L1 a1p b1 L2 a2p b2 = 0"
    with unf have LC: "L1 - L2 = 0" "C1p - C2p = 0"
      and H: "2 * sqrt (C1p * C2p) * sin (delta_hp h1p h2p / 2) = 0" by blast+
    from LC have L: "L1 = L2" and C: "C1p = C2p" by simp_all
    have "sqrt (C1p * C2p) = C2p" using C C2 by simp
    with H have "C2p = 0 \<or> sin (delta_hp h1p h2p / 2) = 0" by simp
    then have "a1p = a2p \<and> b1 = b2"
    proof
      assume "C2p = 0"
      then show ?thesis using C pol1 pol2 by simp
    next
      assume s: "sin (delta_hp h1p h2p / 2) = 0"
      have "\<bar>delta_hp h1p h2p / 2\<bar> < pi"
        using delta_hp_bounds [OF h1 h2] pi_gt_zero by (simp add: abs_less_iff, linarith?)
      then have "delta_hp h1p h2p / 2 = 0" using s by (simp add: sin_zero_pi_iff)
      then have "h1p = h2p" using delta_hp_zero_iff [OF h1 h2] by simp
      then show ?thesis using C pol1 pol2 by simp
    qed
    with L show "L1 = L2 \<and> a1p = a2p \<and> b1 = b2" by simp
  next
    assume "L1 = L2 \<and> a1p = a2p \<and> b1 = b2"
    then have "L1 - L2 = 0" "C1p - C2p = 0" "h1p = h2p"
      by (simp_all add: C1p_def C2p_def h1p_def h2p_def)
    moreover have "delta_hp h2p h2p = 0" using pi_gt_zero by (simp add: delta_hp_def Let_def)
    ultimately show "de00_primed L1 a1p b1 L2 a2p b2 = 0" using unf by simp
  qed
qed

lemma radicand_nonneg: "0 \<le> deltaE2000_radicand p q"
proof -
  obtain L1 a1 b1 where p: "p = (L1, a1, b1)" by (cases p)
  obtain L2 a2 b2 where q: "q = (L2, a2, b2)" by (cases q)
  show ?thesis unfolding p q radicand_staged Let_def by (rule de00_primed_nonneg)
qed

lemma radicand_zero_iff: "deltaE2000_radicand p q = 0 \<longleftrightarrow> p = q"
proof -
  obtain L1 a1 b1 where p: "p = (L1, a1, b1)" by (cases p)
  obtain L2 a2 b2 where q: "q = (L2, a2, b2)" by (cases q)
  define G where "G = G_factor ((sqrt (a1\<^sup>2 + b1\<^sup>2) + sqrt (a2\<^sup>2 + b2\<^sup>2)) / 2)"
  have "0 < G" unfolding G_def by (rule G_factor_pos [OF chroma_nonneg])
  then have nz: "1 + G \<noteq> 0" by linarith
  have "deltaE2000_radicand p q = de00_primed L1 ((1 + G) * a1) b1 L2 ((1 + G) * a2) b2"
    unfolding p q radicand_staged Let_def G_def ..
  then show ?thesis using nz by (simp add: de00_primed_zero_iff p q)
qed

lemma deltaE76_at_nonneg: "0 \<le> deltaE76_at p q"
  by (cases p; cases q) simp

lemma deltaE76_at_zero_iff: "deltaE76_at p q = 0 \<longleftrightarrow> p = q"
proof -
  obtain L1 a1 b1 where p: "p = (L1, a1, b1)" by (cases p)
  obtain L2 a2 b2 where q: "q = (L2, a2, b2)" by (cases q)
  have "(L1 - L2)\<^sup>2 + (a1 - a2)\<^sup>2 + (b1 - b2)\<^sup>2 = 0 \<longleftrightarrow> L1 = L2 \<and> a1 = a2 \<and> b1 = b2"
    by (simp add: sum_power2_eq_zero_iff add_nonneg_eq_0_iff)
  then show ?thesis by (simp add: p q)
qed

text \<open>
  C3. Both metrics are non-negative, the CIEDE2000 radicand is never negative, and
  each metric is zero exactly when the two Lab triples are the same.
\<close>

theorem deltaE_nonneg_and_zero_iff_equal:
  "0 \<le> deltaE76_at A B \<and> 0 \<le> deltaE2000_radicand A B \<and> 0 \<le> deltaE2000_at A B
   \<and> (deltaE76_at A B = 0 \<longleftrightarrow> A = B) \<and> (deltaE2000_at A B = 0 \<longleftrightarrow> A = B)"
  by (simp add: deltaE76_at_nonneg deltaE76_at_zero_iff radicand_nonneg radicand_zero_iff
        deltaE2000_at_def)

text \<open>
  C4. CIEDE2000 is symmetric, for a pair of colours and entry by entry for the
  matrices of two batches: the matrix of X against Y is the transpose of the matrix
  of Y against X.
\<close>

theorem deltaE2000_symmetric:
  "deltaE2000_at A B = deltaE2000_at B A
   \<and> (i < length X \<longrightarrow> j < length Y \<longrightarrow> deltaE2000 X Y ! i ! j = deltaE2000 Y X ! j ! i)"
  by (simp add: deltaE2000_def deltaE2000_at_def radicand_swap [of "X ! i" "Y ! j"]
        radicand_swap [of A B])

theorem deltaE2000_symmetric_witness:
  "(0::nat) < length [(50, 2, - 3) :: lab] \<and> (1::nat) < length [(60, 1, 1), (20, - 7, 5) :: lab]
   \<and> deltaE2000_at (50, 2, - 3) (20, - 7, 5) = deltaE2000_at (20, - 7, 5) (50, 2, - 3)
   \<and> deltaE2000 [(50, 2, - 3)] [(60, 1, 1), (20, - 7, 5)] ! 0 ! 1
     = deltaE2000 [(60, 1, 1), (20, - 7, 5)] [(50, 2, - 3)] ! 1 ! 0"
  using deltaE2000_symmetric [of "(50, 2, - 3)" "(20, - 7, 5)" 0 "[(50, 2, - 3)]" 1
          "[(60, 1, 1), (20, - 7, 5)]"]
  by simp

section \<open>Properties of the matcher\<close>

lemma argmin_None_iff: "argmin xs = None \<longleftrightarrow> xs = []"
  by (cases xs) (auto split: option.splits)

lemma argmin_props:
  assumes "argmin xs = Some k"
  shows "k < length xs \<and> (\<forall>j<length xs. xs ! k \<le> xs ! j) \<and> (\<forall>j<k. xs ! k < xs ! j)"
  using assms
proof (induction xs arbitrary: k)
  case Nil
  then show ?case by simp
next
  case (Cons x xs)
  show ?case
  proof (cases "argmin xs")
    case None
    then have "xs = []" by (simp add: argmin_None_iff)
    with Cons.prems show ?thesis by simp
  next
    case (Some m)
    note ih = Cons.IH [OF Some]
    show ?thesis
    proof (cases "x \<le> xs ! m")
      case True
      then have k: "k = 0" using Cons.prems Some by simp
      have "\<forall>j<length (x # xs). (x # xs) ! 0 \<le> (x # xs) ! j"
      proof (intro allI impI)
        fix j assume "j < length (x # xs)"
        then show "(x # xs) ! 0 \<le> (x # xs) ! j"
          using True ih by (cases j) (auto intro: order_trans)
      qed
      then show ?thesis by (simp add: k)
    next
      case False
      then have k: "k = Suc m" using Cons.prems Some by simp
      have lt: "xs ! m < x" using False by simp
      have a: "\<forall>j<length (x # xs). (x # xs) ! Suc m \<le> (x # xs) ! j"
      proof (intro allI impI)
        fix j assume "j < length (x # xs)"
        then show "(x # xs) ! Suc m \<le> (x # xs) ! j"
          using lt ih by (cases j) auto
      qed
      have b: "\<forall>j<Suc m. (x # xs) ! Suc m < (x # xs) ! j"
      proof (intro allI impI)
        fix j assume "j < Suc m"
        then show "(x # xs) ! Suc m < (x # xs) ! j"
          using lt ih by (cases j) auto
      qed
      from a b ih show ?thesis by (simp add: k)
    qed
  qed
qed

lemma tailwind_dists_valid:
  assumes "valid_rgb rgb"
  shows "tailwind_dists cvt rgb tw_lab method
         = Inr (map (metric_at method (lab_of_rgb cvt rgb)) tw_lab)"
  using assms
  by (simp add: tailwind_dists_def rgb_to_lab_def deltaE2000_def deltaE76_def metric_at_def
        lab_of_rgb_def del: rgb_to_bgr_uint8.simps astype_float32.simps)

text \<open>
  C7. For a valid colour and a non-empty palette with one Lab triple per entry, the
  match is the entry at the first index where the distance under the chosen metric is
  least, together with that distance: no entry is nearer, and every earlier entry is
  strictly farther.
\<close>

theorem nearest_tailwind_first_minimum:
  assumes "valid_rgb rgb" and "tw_lab \<noteq> []" and "length tw_entries = length tw_lab"
  shows "\<exists>k<length tw_lab.
           nearest_tailwind cvt rgb tw_entries tw_lab method
             = Inr \<lparr>name = name (tw_entries ! k), shade = shade (tw_entries ! k),
                    hex = hex (tw_entries ! k),
                    deltaE = metric_at method (lab_of_rgb cvt rgb) (tw_lab ! k)\<rparr>
           \<and> (\<forall>j<length tw_lab. metric_at method (lab_of_rgb cvt rgb) (tw_lab ! k)
                                 \<le> metric_at method (lab_of_rgb cvt rgb) (tw_lab ! j))
           \<and> (\<forall>j<k. metric_at method (lab_of_rgb cvt rgb) (tw_lab ! k)
                     < metric_at method (lab_of_rgb cvt rgb) (tw_lab ! j))"
proof -
  define dists where "dists = map (metric_at method (lab_of_rgb cvt rgb)) tw_lab"
  have d: "tailwind_dists cvt rgb tw_lab method = Inr dists"
    unfolding dists_def by (rule tailwind_dists_valid [OF assms(1)])
  have len: "length dists = length tw_lab" by (simp add: dists_def)
  have "dists \<noteq> []" using assms(2) by (simp add: dists_def)
  then obtain k where k: "argmin dists = Some k"
    using argmin_None_iff [of dists] by (cases "argmin dists") auto
  note p = argmin_props [OF k]
  have kl: "k < length tw_lab" using p len by simp
  have nth: "\<And>j. j < length tw_lab \<Longrightarrow> dists ! j = metric_at method (lab_of_rgb cvt rgb) (tw_lab ! j)"
    by (simp add: dists_def)
  have res: "nearest_tailwind cvt rgb tw_entries tw_lab method
             = Inr \<lparr>name = name (tw_entries ! k), shade = shade (tw_entries ! k),
                    hex = hex (tw_entries ! k),
                    deltaE = metric_at method (lab_of_rgb cvt rgb) (tw_lab ! k)\<rparr>"
    using kl assms(3) by (simp add: nearest_tailwind_def d k nth Let_def)
  have le: "\<forall>j<length tw_lab. metric_at method (lab_of_rgb cvt rgb) (tw_lab ! k)
                                 \<le> metric_at method (lab_of_rgb cvt rgb) (tw_lab ! j)"
    using p kl len by (auto simp: nth [symmetric])
  have lt: "\<forall>j<k. metric_at method (lab_of_rgb cvt rgb) (tw_lab ! k)
                     < metric_at method (lab_of_rgb cvt rgb) (tw_lab ! j)"
  proof (intro allI impI)
    fix j assume "j < k"
    then have "j < length tw_lab" using kl by simp
    then show "metric_at method (lab_of_rgb cvt rgb) (tw_lab ! k)
               < metric_at method (lab_of_rgb cvt rgb) (tw_lab ! j)"
      using p kl \<open>j < k\<close> by (simp add: nth [symmetric])
  qed
  from kl res le lt show ?thesis by blast
qed

theorem nearest_tailwind_first_minimum_witness:
  "valid_rgb (10, 20, 30) \<and> [(1, 2, 3), (1, 2, 3) :: lab] \<noteq> []
   \<and> length [\<lparr>name = ''red'', shade = 500, hex = ''#ef4444''\<rparr>,
              \<lparr>name = ''rose'', shade = 500, hex = ''#ef4444''\<rparr>]
       = length [(1, 2, 3), (1, 2, 3) :: lab]
   \<and> (\<exists>k<length [(1, 2, 3), (1, 2, 3) :: lab].
         nearest_tailwind (\<lambda>p. p) (10, 20, 30)
             [\<lparr>name = ''red'', shade = 500, hex = ''#ef4444''\<rparr>,
              \<lparr>name = ''rose'', shade = 500, hex = ''#ef4444''\<rparr>]
             [(1, 2, 3), (1, 2, 3)] ''DE76''
           = Inr \<lparr>name = name ([\<lparr>name = ''red'', shade = 500, hex = ''#ef4444''\<rparr>,
                                 \<lparr>name = ''rose'', shade = 500, hex = ''#ef4444''\<rparr>] ! k),
                  shade = shade ([\<lparr>name = ''red'', shade = 500, hex = ''#ef4444''\<rparr>,
                                  \<lparr>name = ''rose'', shade = 500, hex = ''#ef4444''\<rparr>] ! k),
                  hex = hex ([\<lparr>name = ''red'', shade = 500, hex = ''#ef4444''\<rparr>,
                              \<lparr>name = ''rose'', shade = 500, hex = ''#ef4444''\<rparr>] ! k),
                  deltaE = metric_at ''DE76'' (lab_of_rgb (\<lambda>p. p) (10, 20, 30))
                             ([(1, 2, 3), (1, 2, 3)] ! k)\<rparr>
         \<and> (\<forall>j<length [(1, 2, 3), (1, 2, 3) :: lab].
               metric_at ''DE76'' (lab_of_rgb (\<lambda>p. p) (10, 20, 30)) ([(1, 2, 3), (1, 2, 3)] ! k)
               \<le> metric_at ''DE76'' (lab_of_rgb (\<lambda>p. p) (10, 20, 30)) ([(1, 2, 3), (1, 2, 3)] ! j))
         \<and> (\<forall>j<k.
               metric_at ''DE76'' (lab_of_rgb (\<lambda>p. p) (10, 20, 30)) ([(1, 2, 3), (1, 2, 3)] ! k)
               < metric_at ''DE76'' (lab_of_rgb (\<lambda>p. p) (10, 20, 30)) ([(1, 2, 3), (1, 2, 3)] ! j)))"
proof -
  have h1: "valid_rgb (10, 20, 30)" by (simp add: valid_channel_def)
  have h2: "[(1, 2, 3), (1, 2, 3) :: lab] \<noteq> []" by simp
  have h3: "length [\<lparr>name = ''red'', shade = 500, hex = ''#ef4444''\<rparr>,
                    \<lparr>name = ''rose'', shade = 500, hex = ''#ef4444''\<rparr>]
            = length [(1, 2, 3), (1, 2, 3) :: lab]" by simp
  show ?thesis
    by (intro conjI h1 h2 h3 nearest_tailwind_first_minimum [OF h1 h2 h3])
qed

text \<open>
  Two entries at the same distance: the first one in the order of the palette is returned.
\<close>

lemma nearest_tailwind_tie_example:
  "nearest_tailwind (\<lambda>p. p) (10, 20, 30)
     [\<lparr>name = ''red'', shade = 500, hex = ''#ef4444''\<rparr>,
      \<lparr>name = ''rose'', shade = 500, hex = ''#ef4444''\<rparr>]
     [(1, 2, 3), (1, 2, 3)] ''DE76''
   = Inr \<lparr>name = ''red'', shade = 500, hex = ''#ef4444'',
          deltaE = deltaE76_at (30, 20, 10) (1, 2, 3)\<rparr>"
proof -
  have v: "valid_rgb (10, 20, 30)" by (simp add: valid_channel_def)
  have m: "\<not> use_de2000 ''DE76''"
    by (simp add: use_de2000_def upper_char_def char_of_def bit_Suc_0_iff)
  have l: "lab_of_rgb (\<lambda>p. p) (10, 20, 30) = (30, 20, 10)"
    by (simp add: lab_of_rgb_def astype_uint8_def)
  show ?thesis
    by (simp add: nearest_tailwind_def tailwind_dists_valid [OF v] metric_at_def m l
          del: deltaE76_at.simps)
qed

section \<open>Properties of the extraction\<close>

lemma label_less:
  assumes "centers \<noteq> []"
  shows "label centers p < length centers"
proof -
  have "map (d2 p) centers \<noteq> []" using assms by simp
  then obtain k where k: "argmin (map (d2 p) centers) = Some k"
    using argmin_None_iff [of "map (d2 p) centers"] by (cases "argmin (map (d2 p) centers)") auto
  then show ?thesis using argmin_props [OF k] by (simp add: label_def)
qed

lemma less_foldr_max_Suc: "l \<in> set labels \<Longrightarrow> l < foldr max (map Suc labels) 0"
  by (induction labels) auto

lemma foldr_max_Suc_le: "(\<forall>l \<in> set labels. l < m) \<Longrightarrow> foldr max (map Suc labels) 0 \<le> m"
  by (induction labels) auto

lemma sum_list_count_list_upt:
  assumes "\<forall>l \<in> set labels. l < n"
  shows "sum_list (map (count_list labels) [0..<n]) = length labels"
proof -
  have "set labels \<subseteq> {0..<n}" using assms by auto
  then have "sum (count_list labels) {0..<n} = length labels"
    by (rule sum_count_set) simp
  then show ?thesis by (simp add: interv_sum_list_conv_sum_set_nat)
qed

lemma sum_list_bincount: "sum_list (bincount labels m) = length labels"
proof -
  have "\<forall>l \<in> set labels. l < max m (foldr max (map Suc labels) 0)"
    using less_foldr_max_Suc [of _ labels] by (auto simp: less_max_iff_disj)
  then show ?thesis unfolding bincount_def by (rule sum_list_count_list_upt)
qed

lemma length_bincount:
  assumes "\<forall>l \<in> set labels. l < m"
  shows "length (bincount labels m) = m"
  using foldr_max_Suc_le [OF assms] by (simp add: bincount_def)

lemma cluster_counts_sum:
  assumes "cluster_counts centers pxs k = Inr counts"
  shows "sum_list counts = length pxs"
  using assms by (auto simp: cluster_counts_def sum_list_bincount split: if_splits)

lemma cluster_counts_length:
  assumes "length centers = k" and "0 < k" and "broadcastable centers"
  shows "\<exists>counts. cluster_counts centers pxs k = Inr counts \<and> length counts = k"
proof -
  have ne: "centers \<noteq> []" using assms by auto
  have "\<forall>l \<in> set (map (label centers) pxs). l < k"
    using label_less [OF ne] assms(1) by auto
  then have "length (bincount (map (label centers) pxs) k) = k" by (rule length_bincount)
  then show ?thesis using ne assms(3) by (simp add: cluster_counts_def)
qed

lemma length_as_row: "length (as_row p) = 3"
  by (cases p) simp

lemma sample_data_rows:
  assumes "\<forall>i \<in> set (choice seed (length pxs) sample). i < length pxs"
  shows "\<forall>s \<in> set (sample_data choice (map as_row pxs) sample seed). length s = 3"
  using assms by (auto simp: sample_data_def Let_def length_as_row)

lemma kmeans_samples_cases:
  assumes "\<forall>s \<in> set data. length s = 3"
  shows "length data \<le> length (kmeans_samples data)
         \<and> ((\<forall>s \<in> set (kmeans_samples data). length s = 3)
              \<or> (\<forall>s \<in> set (kmeans_samples data). length s = 1))"
proof (cases data)
  case Nil
  then show ?thesis by (simp add: kmeans_samples_def)
next
  case (Cons s rest)
  show ?thesis
  proof (cases rest)
    case Nil
    with Cons assms have "length s = 3" by simp
    with Cons Nil show ?thesis by (auto simp: kmeans_samples_def)
  next
    case (Cons t rest')
    with \<open>data = s # rest\<close> have "kmeans_samples data = data" by (simp add: kmeans_samples_def)
    with assms show ?thesis by simp
  qed
qed

lemma argsort_mset: "mset (argsort xs) = mset [0..<length xs]"
  unfolding argsort_def by (rule mset_sort)

lemma length_argsort: "length (argsort xs) = length xs"
  by (simp add: argsort_def)

lemma argsort_set: "set (argsort xs) = {0..<length xs}"
  by (simp add: argsort_def)

lemma reorder_mset: "mset (map (\<lambda>i. w ! i) (argsort xs)) = mset (map (\<lambda>i. w ! i) [0..<length xs])"
  by (simp only: mset_map argsort_mset)

lemma reorder_by_negated_mset:
  "mset (map (\<lambda>i. w ! i) (argsort (map uminus w))) = mset (w :: real list)"
proof -
  have "map (\<lambda>i. w ! i) [0..<length (map uminus w)] = w" by (simp add: map_nth)
  then show ?thesis using reorder_mset [of w "map uminus w"] by simp
qed

lemma reorder_by_negated_sorted:
  "sorted_wrt (\<ge>) (map (\<lambda>i. w ! i) (argsort (map uminus w)) :: real list)"
proof -
  define order where "order = argsort (map uminus w)"
  have s: "sorted (map (\<lambda>i. map uminus w ! i) order)"
    unfolding order_def argsort_def by (rule sorted_sort_key)
  have "\<forall>i \<in> set order. i < length w"
    by (simp add: order_def argsort_set)
  then have "map (\<lambda>i. map uminus w ! i) order = map (\<lambda>i. - (w ! i)) order" by simp
  with s have "sorted (map (\<lambda>i. - (w ! i)) order)" by simp
  then have "sorted_wrt (\<lambda>i j. - (w ! i) \<le> - (w ! j)) order"
    by (simp add: sorted_wrt_map)
  then have "sorted_wrt (\<lambda>i j. w ! j \<le> w ! i) order" by simp
  then show ?thesis unfolding order_def [symmetric] by (simp add: sorted_wrt_map)
qed

lemma sum_list_normalised:
  assumes "sum_list counts \<noteq> 0"
  shows "sum_list (map (\<lambda>c. real c / real (sum_list counts)) (counts :: nat list)) = 1"
proof -
  have "sum_list (map (\<lambda>c. real c / t) counts) = real (sum_list counts) / t" for t
    by (induction counts) (simp_all add: add_divide_distrib)
  then show ?thesis using assms by simp
qed

text \<open>
  C5. Whenever the extraction returns, the weights are the per-cluster counts of the
  pixels of the whole (possibly downscaled) frame, whatever the sample cap, divided by
  their sum; the counts add up to the number of pixels of that frame, the weights add
  up to 1 and they are in descending order.
\<close>

theorem kmeans_colors_weights:
  assumes "kmeans_colors resize choice cluster img k sample seed max_side = Inr (cs, ws)"
  shows "\<exists>arr counts.
           downscaled resize img max_side = Inr arr
         \<and> cluster_counts
               (map (map clip_uint8)
                  (cluster (kmeans_samples
                              (sample_data choice (map as_row (pixels arr)) sample seed)) k))
               (pixels arr) k = Inr counts
         \<and> sum_list counts = length (pixels arr)
         \<and> mset ws = mset (map (\<lambda>c. real c / real (sum_list counts)) counts)
         \<and> sum_list ws = 1
         \<and> \<bar>sum_list ws - 1\<bar> \<le> 1 / 10 ^ 6
         \<and> sorted_wrt (\<ge>) ws"
proof -
  from assms obtain arr where arr: "downscaled resize img max_side = Inr arr"
    by (auto simp: kmeans_colors_def split: sum.splits)
  define data where "data = sample_data choice (map as_row (pixels arr)) sample seed"
  from assms arr have cf: "cv2_kmeans cluster data k = Inr (cluster (kmeans_samples data) k)"
    by (auto simp: kmeans_colors_def Let_def data_def cv2_kmeans_def split: sum.splits if_splits)
  define centers where "centers = map (map clip_uint8) (cluster (kmeans_samples data) k)"
  from assms arr cf obtain counts where
    counts: "cluster_counts centers (pixels arr) k = Inr counts"
    by (auto simp: kmeans_colors_def Let_def data_def centers_def split: sum.splits)
  define weights where "weights = map (\<lambda>c. real c / real (sum_list counts)) counts"
  from assms arr cf counts have nz: "sum_list counts \<noteq> 0"
    and ws: "ws = map (\<lambda>i. weights ! i) (argsort (map uminus weights))"
    by (auto simp: kmeans_colors_def Let_def data_def centers_def weights_def
             split: sum.splits if_splits)
  have m: "mset ws = mset weights" unfolding ws by (rule reorder_by_negated_mset)
  have "sum_list ws = sum_list weights"
    using m by (metis sum_mset_sum_list)
  then have one: "sum_list ws = 1"
    using sum_list_normalised [OF nz] by (simp add: weights_def)
  have srt: "sorted_wrt (\<ge>) ws" unfolding ws by (rule reorder_by_negated_sorted)
  have total: "sum_list counts = length (pixels arr)" by (rule cluster_counts_sum [OF counts])
  from arr counts total m one srt show ?thesis
    unfolding weights_def centers_def data_def
    by (intro exI [of _ arr] exI [of _ counts]) simp
qed

theorem kmeans_colors_weights_witness:
  "kmeans_colors (\<lambda>f w h. pixels f) (\<lambda>s n z. [0..<min n z]) (\<lambda>d k. [[0, 0, 255], [255, 0, 0]])
     \<lparr>height = 2, width = 2, pixels = [(255, 0, 0), (255, 0, 0), (0, 0, 255), (255, 0, 0)]\<rparr>
     2 400000 42 1024
   = Inr ([[255, 0, 0], [0, 0, 255]], [3 / 4, 1 / 4])
   \<and> sum_list [3 / 4, 1 / 4 :: real] = 1
   \<and> sorted_wrt (\<ge>) [3 / 4, 1 / 4 :: real]"
proof -
  have h: "kmeans_colors (\<lambda>f w h. pixels f) (\<lambda>s n z. [0..<min n z]) (\<lambda>d k. [[0, 0, 255], [255, 0, 0]])
     \<lparr>height = 2, width = 2, pixels = [(255, 0, 0), (255, 0, 0), (0, 0, 255), (255, 0, 0)]\<rparr>
     2 400000 42 1024
   = Inr ([[255, 0, 0], [0, 0, 255]], [3 / 4, 1 / 4])"
    by (simp add: kmeans_colors_def downscaled_def sample_data_def cv2_kmeans_def
          kmeans_samples_def cluster_counts_def broadcastable_def bincount_def label_def
          argsort_def clip_uint8_def Let_def upt_rec [of 0] upt_rec [of 1])
  show ?thesis using h kmeans_colors_weights [OF h] by simp
qed

text \<open>
  C6. A frame of 1 by 1025 pixels with the default maximal side 1024 is downscaled: the
  scale is 1024 / 1025, the target height is \<^verbatim>\<open>int(1 * scale)\<close> = 0, the resize is
  rejected and the extraction fails, whatever the collaborators do.
\<close>

theorem kmeans_colors_elongated_frame_fails:
  "\<forall>resize choice cluster.
     kmeans_colors resize choice cluster
       \<lparr>height = 1, width = 1025, pixels = replicate 1025 (0, 0, 0)\<rparr>
       3 400000 42 1024 = Inl CvError"
proof -
  have "\<lfloor>(1024 :: real) / 1025\<rfloor> = 0" by simp
  then show ?thesis
    by (simp add: kmeans_colors_def downscaled_def cv2_resize_def Let_def)
qed

text \<open>
  Where the extraction does return K centers. When the frame left by the optional
  downscale gives the clustering at least K samples, K is positive, the seeded draw
  returns indices of pixels and the clustering returns its K centers with the dimension
  of the samples, the extraction returns exactly K centers and K weights, whether or not
  the colours are distinct.
\<close>

lemma kmeans_colors_returns_k:
  assumes "downscaled resize img max_side = Inr arr"
    and "0 < k"
    and "k \<le> length (sample_data choice (map as_row (pixels arr)) sample seed)"
    and "\<forall>i \<in> set (choice seed (length (pixels arr)) sample). i < length (pixels arr)"
    and "length (cluster (kmeans_samples
                   (sample_data choice (map as_row (pixels arr)) sample seed)) k) = k"
    and "\<forall>c \<in> set (cluster (kmeans_samples
                   (sample_data choice (map as_row (pixels arr)) sample seed)) k).
           \<forall>s \<in> set (kmeans_samples
                   (sample_data choice (map as_row (pixels arr)) sample seed)).
             length c = length s"
  shows "\<exists>cs ws. kmeans_colors resize choice cluster img k sample seed max_side = Inr (cs, ws)
                 \<and> length cs = k \<and> length ws = k"
proof -
  define data where "data = sample_data choice (map as_row (pixels arr)) sample seed"
  define S where "S = kmeans_samples data"
  define centers where "centers = map (map clip_uint8) (cluster S k)"
  have rows: "\<forall>s \<in> set data. length s = 3"
    unfolding data_def using sample_data_rows [of choice seed "pixels arr" sample] assms(4)
    by simp
  note sc = kmeans_samples_cases [OF rows, folded S_def]
  have kS: "k \<le> length S" using sc assms(3) by (simp add: data_def)
  then have "S \<noteq> []" using assms(2) by auto
  then obtain s0 where s0: "s0 \<in> set S" by (cases S) auto
  have dims: "\<forall>c \<in> set (cluster S k). \<forall>s \<in> set S. length c = length s"
    using assms(6) by (simp add: S_def data_def)
  have "(\<forall>c \<in> set (cluster S k). length c = 3) \<or> (\<forall>c \<in> set (cluster S k). length c = 1)"
    using sc dims s0 by metis
  then have bc: "broadcastable centers"
    by (auto simp: broadcastable_def centers_def list_all_iff)
  have km: "cv2_kmeans cluster data k = Inr (cluster S k)"
    using assms(2) kS by (simp add: cv2_kmeans_def S_def)
  have lc: "length centers = k" using assms(5) by (simp add: centers_def S_def data_def)
  obtain counts where counts: "cluster_counts centers (pixels arr) k = Inr counts"
    and lcounts: "length counts = k"
    using cluster_counts_length [OF lc assms(2) bc] by blast
  have "pixels arr \<noteq> []"
  proof
    assume "pixels arr = []"
    then have "data = []" by (simp add: data_def sample_data_def)
    with assms(2,3) show False by (simp add: data_def)
  qed
  then have nz: "sum_list counts \<noteq> 0"
    using cluster_counts_sum [OF counts] by simp
  define weights where "weights = map (\<lambda>c. real c / real (sum_list counts)) counts"
  have lw: "length weights = k" by (simp add: weights_def lcounts)
  have "kmeans_colors resize choice cluster img k sample seed max_side
        = Inr (map (\<lambda>i. centers ! i) (argsort (map uminus weights)),
               map (\<lambda>i. weights ! i) (argsort (map uminus weights)))"
    using nz lc lw
    by (simp add: kmeans_colors_def assms(1) Let_def data_def [symmetric] km
          centers_def [symmetric] counts weights_def [symmetric])
  then show ?thesis by (simp add: length_argsort lw)
qed

lemma kmeans_colors_returns_k_example:
  "downscaled (\<lambda>f w h. pixels f)
     \<lparr>height = 2, width = 2, pixels = [(255, 0, 0), (255, 0, 0), (255, 0, 0), (255, 0, 0)]\<rparr> 1024
   = Inr \<lparr>height = 2, width = 2, pixels = [(255, 0, 0), (255, 0, 0), (255, 0, 0), (255, 0, 0)]\<rparr>
   \<and> (0::nat) < 3
   \<and> (\<exists>cs ws. kmeans_colors (\<lambda>f w h. pixels f) (\<lambda>s n z. [0..<min n z]) (\<lambda>d k. take k d)
         \<lparr>height = 2, width = 2, pixels = [(255, 0, 0), (255, 0, 0), (255, 0, 0), (255, 0, 0)]\<rparr>
         3 400000 42 1024 = Inr (cs, ws)
       \<and> length cs = 3 \<and> length ws = 3)"
proof -
  let ?img = "\<lparr>height = 2, width = 2,
                pixels = [(255, 0, 0), (255, 0, 0), (255, 0, 0), (255, 0, 0) :: u8x3]\<rparr>"
  have h1: "downscaled (\<lambda>f w h. pixels f) ?img 1024 = Inr ?img" by (simp add: downscaled_def)
  have h2: "(0::nat) < 3" by simp
  have d: "sample_data (\<lambda>s n z. [0..<min n z]) (map as_row (pixels ?img)) 400000 42
           = [[255, 0, 0], [255, 0, 0], [255, 0, 0], [255, 0, 0]]"
    by (simp add: sample_data_def)
  have S: "kmeans_samples [[255, 0, 0], [255, 0, 0], [255, 0, 0], [255, 0, 0 :: real]]
           = [[255, 0, 0], [255, 0, 0], [255, 0, 0], [255, 0, 0]]"
    by (simp add: kmeans_samples_def)
  have h3: "3 \<le> length (sample_data (\<lambda>s n z. [0..<min n z]) (map as_row (pixels ?img)) 400000 42)"
    unfolding d by simp
  have h4: "\<forall>i \<in> set ((\<lambda>s n z. [0..<min n z]) 42 (length (pixels ?img)) 400000). i < length (pixels ?img)"
    by simp
  have h5: "length ((\<lambda>d k. take k d)
              (kmeans_samples
                 (sample_data (\<lambda>s n z. [0..<min n z]) (map as_row (pixels ?img)) 400000 42)) 3) = 3"
    unfolding d S by simp
  have h6: "\<forall>c \<in> set ((\<lambda>d k. take k d)
              (kmeans_samples
                 (sample_data (\<lambda>s n z. [0..<min n z]) (map as_row (pixels ?img)) 400000 42)) 3).
            \<forall>s \<in> set (kmeans_samples
                 (sample_data (\<lambda>s n z. [0..<min n z]) (map as_row (pixels ?img)) 400000 42)).
              length c = length s"
    unfolding d S by simp
  show ?thesis
    using h1 h2 kmeans_colors_returns_k [of "\<lambda>f w h. pixels f" ?img 1024 ?img 3 "\<lambda>s n z. [0..<min n z]"
        400000 42 "\<lambda>d k. take k d", OF h1 h2 h3 h4 h5 h6]
    by simp
qed

text \<open>
  A frame of two pixels has fewer pixels than K = 3: the clustering call is rejected and
  so is the extraction, whatever the collaborators do.
\<close>

lemma kmeans_colors_fewer_pixels_than_k:
  "\<forall>resize choice cluster.
     kmeans_colors resize choice cluster
       \<lparr>height = 1, width = 2, pixels = [(0, 0, 0), (255, 255, 255)]\<rparr>
       3 400000 42 1024 = Inl CvError"
  by (simp add: kmeans_colors_def downscaled_def sample_data_def cv2_kmeans_def
        kmeans_samples_def)

text \<open>
  A frame of a single pixel is clustered as three one-dimensional samples: with K = 2
  the extraction returns, and its centers have one column each.
\<close>

lemma kmeans_colors_single_pixel_example:
  "kmeans_colors (\<lambda>f w h. pixels f) (\<lambda>s n z. [0..<min n z]) (\<lambda>d k. take k d)
     \<lparr>height = 1, width = 1, pixels = [(10, 20, 30)]\<rparr> 2 400000 42 1024
   = Inr ([[20], [10]], [1, 0])"
  by (simp add: kmeans_colors_def downscaled_def sample_data_def cv2_kmeans_def
        kmeans_samples_def cluster_counts_def broadcastable_def bincount_def label_def
        argsort_def clip_uint8_def Let_def upt_rec [of 0] upt_rec [of 1])

end
